theory Spec2Isabelle
  imports Complex_Main "HOL-Library.Stream"
begin

section \<open>Agents and environments (agents.py)\<close>

text \<open>
  A shallow embedding of \<^verbatim>\<open>agents.py\<close>: entities are attribute records held in a store
  and named by references, the environment classes are extensible records over the lists
  \<^verbatim>\<open>objects\<close> and \<^verbatim>\<open>agents\<close>, methods that a subclass overrides are passed as a record
  of functions, and every exception the Python raises is a value of type \<open>error\<close>.
\<close>

subsection \<open>Values, errors and classes\<close>

datatype error = TypeError | AttributeError | KeyError | IndexError | ValueError
  | ZeroDivisionError

type_synonym ref = nat

type_synonym loc = "int \<times> int"

text \<open>An action is whatever a program returns: a string, or Python's \<^verbatim>\<open>None\<close>.\<close>

type_synonym action = "string option"

text \<open>
  Dynamically typed values, for the calls whose arguments do not have the types the callee
  expects: integers, tuples, lists, object references and \<^verbatim>\<open>None\<close>.
\<close>

datatype pyval = PNone | PInt int | PTuple "pyval list" | PList "pyval list" | PObj ref

definition of_loc :: "loc \<Rightarrow> pyval" where
  "of_loc l = PTuple [PInt (fst l), PInt (snd l)]"

definition of_loc_opt :: "loc option \<Rightarrow> pyval" where
  "of_loc_opt l = (case l of None \<Rightarrow> PNone | Some p \<Rightarrow> of_loc p)"

fun to_loc :: "pyval \<Rightarrow> loc option" where
  "to_loc (PTuple [PInt x, PInt y]) = Some (x, y)"
| "to_loc _ = None"

text \<open>
  Positional argument binding of a \<^verbatim>\<open>def\<close> with \<open>required\<close> parameters without a default
  and \<open>optional\<close> parameters with one: any other number of arguments is a \<^verbatim>\<open>TypeError\<close>
  raised before the body runs.
\<close>

definition bind_args :: "nat \<Rightarrow> nat \<Rightarrow> pyval list \<Rightarrow> error + pyval list" where
  "bind_args required optional args =
     (if required \<le> length args \<and> length args \<le> required + optional
      then Inr args else Inl TypeError)"

text \<open>The classes of the module; \<open>mro\<close> lists a class with its ancestors.\<close>

datatype klass = Object | Agent | TableDrivenAgent | RandomAgent | ReflexVacuumAgent
  | ModelBasedVacuumAgent | SimpleReflexAgent | ReflexAgentWithState
  | Obstacle | Wall | Dirt | Gold | Pit | Arrow | Wumpus | Explorer

fun mro :: "klass \<Rightarrow> klass list" where
  "mro Object = [Object]"
| "mro Agent = [Agent, Object]"
| "mro TableDrivenAgent = [TableDrivenAgent, Agent, Object]"
| "mro RandomAgent = [RandomAgent, Agent, Object]"
| "mro ReflexVacuumAgent = [ReflexVacuumAgent, Agent, Object]"
| "mro ModelBasedVacuumAgent = [ModelBasedVacuumAgent, Agent, Object]"
| "mro SimpleReflexAgent = [SimpleReflexAgent, Agent, Object]"
| "mro ReflexAgentWithState = [ReflexAgentWithState, Agent, Object]"
| "mro Obstacle = [Obstacle, Object]"
| "mro Wall = [Wall, Obstacle, Object]"
| "mro Dirt = [Dirt, Object]"
| "mro Gold = [Gold, Object]"
| "mro Pit = [Pit, Object]"
| "mro Arrow = [Arrow, Object]"
| "mro Wumpus = [Wumpus, Agent, Object]"
| "mro Explorer = [Explorer, Agent, Object]"

definition isinstance :: "klass \<Rightarrow> klass \<Rightarrow> bool" where
  "isinstance k oclass = (oclass \<in> set (mro k))"

fun class_name :: "klass \<Rightarrow> string" where
  "class_name Object = ''Object''"
| "class_name Agent = ''Agent''"
| "class_name TableDrivenAgent = ''TableDrivenAgent''"
| "class_name RandomAgent = ''RandomAgent''"
| "class_name ReflexVacuumAgent = ''ReflexVacuumAgent''"
| "class_name ModelBasedVacuumAgent = ''ModelBasedVacuumAgent''"
| "class_name SimpleReflexAgent = ''SimpleReflexAgent''"
| "class_name ReflexAgentWithState = ''ReflexAgentWithState''"
| "class_name Obstacle = ''Obstacle''"
| "class_name Wall = ''Wall''"
| "class_name Dirt = ''Dirt''"
| "class_name Gold = ''Gold''"
| "class_name Pit = ''Pit''"
| "class_name Arrow = ''Arrow''"
| "class_name Wumpus = ''Wumpus''"
| "class_name Explorer = ''Explorer''"

subsection \<open>Entities\<close>

text \<open>
  The attributes of an object. An attribute that the object may lack is an option, \<open>None\<close>
  meaning that it is not set: \<^verbatim>\<open>alive\<close> and \<^verbatim>\<open>bump\<close> are set by \<^verbatim>\<open>Agent.__init__\<close>,
  \<^verbatim>\<open>performance\<close> by \<^verbatim>\<open>Environment.add_object\<close>, \<^verbatim>\<open>holding\<close> and \<^verbatim>\<open>held\<close> by
  \<^verbatim>\<open>XYEnvironment.add_object\<close>, and \<^verbatim>\<open>heading\<close> by no code of the module (whoever
  sets it may store any value). For
  \<^verbatim>\<open>location\<close>, which \<^verbatim>\<open>add_object\<close> sets on every registered object, \<open>None\<close> is the
  Python value \<^verbatim>\<open>None\<close>.
\<close>

record entity =
  klass :: klass
  alive :: "bool option"
  bump :: "bool option"
  performance :: "int option"
  location :: "loc option"
  heading :: "pyval option"
  holding :: "ref list option"
  held :: "ref option option"

text \<open>\<^verbatim>\<open>Object()\<close> and its subclasses without a constructor, and \<^verbatim>\<open>Agent.__init__\<close>.\<close>

definition new_object :: "klass \<Rightarrow> entity" where
  "new_object k = \<lparr>klass = k, alive = None, bump = None, performance = None,
     location = None, heading = None, holding = None, held = None\<rparr>"

definition new_agent :: "klass \<Rightarrow> entity" where
  "new_agent k = (new_object k)\<lparr>alive := Some True, bump := Some False\<rparr>"

definition is_alive :: "entity \<Rightarrow> bool" where
  "is_alive e = (case alive e of None \<Rightarrow> False | Some b \<Rightarrow> b)"

text \<open>
  The program slot of an agent: a callable from a percept to an action that may keep
  private state between calls, so a call also yields the program to call next time.
\<close>

codatatype 'p program = Program (call: "'p \<Rightarrow> action \<times> 'p program")

subsection \<open>Environment\<close>

text \<open>
  The environment holds the lists \<^verbatim>\<open>objects\<close> and \<^verbatim>\<open>agents\<close> of references, and the store
  \<open>heap\<close> of the entities they refer to. The subclasses extend the record.
\<close>

record env =
  objects :: "ref list"
  agents :: "ref list"
  heap :: "ref \<Rightarrow> entity"

text \<open>\<^verbatim>\<open>Environment.is_done\<close>: the loop returns at the first live agent.\<close>

fun is_done_loop :: "(ref \<Rightarrow> entity) \<Rightarrow> ref list \<Rightarrow> bool" where
  "is_done_loop h [] = True"
| "is_done_loop h (agent # rest) = (if is_alive (h agent) then False else is_done_loop h rest)"

definition is_done :: "'a env_scheme \<Rightarrow> bool" where
  "is_done e = is_done_loop (heap e) (agents e)"

text \<open>Assigning to attributes of the object a reference names.\<close>

definition update_entity :: "ref \<Rightarrow> (entity \<Rightarrow> entity) \<Rightarrow> 'a env_scheme \<Rightarrow> 'a env_scheme" where
  "update_entity r f e = e\<lparr>heap := (heap e)(r := f (heap e r))\<rparr>"

text \<open>
  The methods a subclass overrides, as the environment's class provides them. A percept
  reads the environment and leaves it as it is; an action returns the changed environment.
\<close>

record ('e, 'p) methods =
  percept :: "'e \<Rightarrow> ref \<Rightarrow> error + 'p"
  execute_action :: "'e \<Rightarrow> ref \<Rightarrow> action \<Rightarrow> error + 'e"
  exogenous_change :: "'e \<Rightarrow> 'e"

text \<open>
  \<^verbatim>\<open>Environment.step\<close>. The program slots are kept in a table of their own beside the
  environment, keyed by the agent: a program sees its percept and nothing else, and the
  environment never looks into a program. The list comprehension asks each agent in turn for
  its percept and calls its program, which may change the program's private state; the
  \<^verbatim>\<open>for\<close> loop then executes the actions in the order of \<^verbatim>\<open>agents\<close>.
\<close>

type_synonym 'p programs = "ref \<Rightarrow> 'p program"

fun collect_actions ::
  "('e, 'p, 'z) methods_scheme \<Rightarrow> 'e \<times> 'p programs \<Rightarrow> ref list \<Rightarrow> error + (action list \<times> 'e \<times> 'p programs)"
where
  "collect_actions m s [] = Inr ([], s)"
| "collect_actions m s (agent # rest) =
     (case percept m (fst s) agent of
        Inl err \<Rightarrow> Inl err
      | Inr p \<Rightarrow>
          (let (act, prog') = call (snd s agent) p;
               s' = (fst s, (snd s)(agent := prog'))
           in case collect_actions m s' rest of
                Inl err \<Rightarrow> Inl err
              | Inr (acts, s'') \<Rightarrow> Inr (act # acts, s'')))"

fun execute_actions :: "('e, 'p, 'z) methods_scheme \<Rightarrow> 'e \<Rightarrow> (ref \<times> action) list \<Rightarrow> error + 'e" where
  "execute_actions m e [] = Inr e"
| "execute_actions m e ((agent, act) # rest) =
     (case execute_action m e agent act of
        Inl err \<Rightarrow> Inl err
      | Inr e' \<Rightarrow> execute_actions m e' rest)"

definition step ::
  "('a env_scheme, 'p, 'z) methods_scheme \<Rightarrow> 'a env_scheme \<times> 'p programs
     \<Rightarrow> error + ('a env_scheme \<times> 'p programs)"
where
  "step m s =
     (if \<not> is_done (fst s) then
        (case collect_actions m s (agents (fst s)) of
           Inl err \<Rightarrow> Inl err
         | Inr (actions, s') \<Rightarrow>
             (case execute_actions m (fst s') (zip (agents (fst s')) actions) of
                Inl err \<Rightarrow> Inl err
              | Inr e' \<Rightarrow> Inr (exogenous_change m e', snd s')))
      else Inr s)"

text \<open>
  \<^verbatim>\<open>Environment.run\<close>: \<^verbatim>\<open>range(steps)\<close> is empty for a negative \<open>steps\<close>. Beside the state
  the model returns the number of calls of \<^verbatim>\<open>step\<close> the loop has made.
\<close>

fun run_loop ::
  "('a env_scheme, 'p, 'z) methods_scheme \<Rightarrow> nat \<Rightarrow> 'a env_scheme \<times> 'p programs
     \<Rightarrow> error + (('a env_scheme \<times> 'p programs) \<times> nat)"
where
  "run_loop m 0 s = Inr (s, 0)"
| "run_loop m (Suc k) s =
     (if is_done (fst s) then Inr (s, 0)
      else (case step m s of
              Inl err \<Rightarrow> Inl err
            | Inr s' \<Rightarrow>
                (case run_loop m k s' of
                   Inl err \<Rightarrow> Inl err
                 | Inr (s'', ticks) \<Rightarrow> Inr (s'', Suc ticks))))"

definition run ::
  "('a env_scheme, 'p, 'z) methods_scheme \<Rightarrow> int \<Rightarrow> 'a env_scheme \<times> 'p programs
     \<Rightarrow> error + (('a env_scheme \<times> 'p programs) \<times> nat)"
where
  "run m steps s = run_loop m (nat steps) s"

subsection \<open>The two-location vacuum environment\<close>

definition loc_A :: loc where
  "loc_A = (0, 0)"

definition loc_B :: loc where
  "loc_B = (1, 0)"

record trivial_vacuum_environment = env +
  status :: "loc \<rightharpoonup> string"

text \<open>\<^verbatim>\<open>TrivialVacuumEnvironment.percept\<close>: a location that is no key of \<^verbatim>\<open>status\<close>,
  \<^verbatim>\<open>None\<close> among them, is a \<^verbatim>\<open>KeyError\<close>.\<close>

definition trivial_percept ::
  "'a trivial_vacuum_environment_scheme \<Rightarrow> ref \<Rightarrow> error + (loc \<times> string)"
where
  "trivial_percept e agent =
     (case location (heap e agent) of
        None \<Rightarrow> Inl KeyError
      | Some l \<Rightarrow> (case status e l of None \<Rightarrow> Inl KeyError | Some st \<Rightarrow> Inr (l, st)))"

text \<open>\<^verbatim>\<open>agent.performance += n\<close>: an \<^verbatim>\<open>AttributeError\<close> when the attribute is not set.\<close>

definition add_performance :: "ref \<Rightarrow> int \<Rightarrow> 'a env_scheme \<Rightarrow> error + 'a env_scheme" where
  "add_performance agent n e =
     (case performance (heap e agent) of
        None \<Rightarrow> Inl AttributeError
      | Some p \<Rightarrow> Inr (update_entity agent (\<lambda>x. x\<lparr>performance := Some (p + n)\<rparr>) e))"

definition trivial_execute_action ::
  "'a trivial_vacuum_environment_scheme \<Rightarrow> ref \<Rightarrow> action
     \<Rightarrow> error + 'a trivial_vacuum_environment_scheme"
where
  "trivial_execute_action e agent act =
     (if act = Some ''Right'' then
        add_performance agent (- 1) (update_entity agent (\<lambda>x. x\<lparr>location := Some loc_B\<rparr>) e)
      else if act = Some ''Left'' then
        add_performance agent (- 1) (update_entity agent (\<lambda>x. x\<lparr>location := Some loc_A\<rparr>) e)
      else if act = Some ''Suck'' then
        (case location (heap e agent) of
           None \<Rightarrow> Inl KeyError
         | Some l \<Rightarrow>
             (case status e l of
                None \<Rightarrow> Inl KeyError
              | Some st \<Rightarrow>
                  (case (if st = ''Dirty'' then add_performance agent 10 e else Inr e) of
                     Inl err \<Rightarrow> Inl err
                   | Inr e' \<Rightarrow> Inr (e'\<lparr>status := (status e')(l \<mapsto> ''Clean'')\<rparr>))))
      else Inr e)"

definition trivial_methods ::
  "('a trivial_vacuum_environment_scheme, loc \<times> string) methods"
where
  "trivial_methods = \<lparr>percept = trivial_percept, execute_action = trivial_execute_action,
     exogenous_change = (\<lambda>e. e)\<rparr>"

text \<open>An agent that performs the given actions one after the other.\<close>

fun perform :: "('e \<Rightarrow> ref \<Rightarrow> action \<Rightarrow> error + 'e) \<Rightarrow> ref \<Rightarrow> action list \<Rightarrow> 'e \<Rightarrow> error + 'e" where
  "perform ex agent [] e = Inr e"
| "perform ex agent (act # rest) e =
     (case ex e agent act of Inl err \<Rightarrow> Inl err | Inr e' \<Rightarrow> perform ex agent rest e')"

subsection \<open>The spatial environment\<close>

record xy_environment = env +
  width :: int
  height :: int

definition objects_at :: "'a env_scheme \<Rightarrow> loc option \<Rightarrow> ref list" where
  "objects_at e l = filter (\<lambda>obj. location (heap e obj) = l) (objects e)"

text \<open>
  Modelled from the spec: \<^verbatim>\<open>some\<close> of the module \<^verbatim>\<open>utils\<close>, which is not among the
  sources; \<^verbatim>\<open>find_at\<close> is true iff any entity at the location is of the class.
\<close>

definition some :: "('a \<Rightarrow> bool) \<Rightarrow> 'a list \<Rightarrow> bool" where
  "some predicate seq = list_ex predicate seq"

definition find_at :: "'a env_scheme \<Rightarrow> klass \<Rightarrow> loc option \<Rightarrow> bool" where
  "find_at e oclass l = some (\<lambda>obj. isinstance (klass (heap e obj)) oclass) (objects_at e l)"

text \<open>
  Modelled from the spec: \<^verbatim>\<open>distance2\<close> of \<^verbatim>\<open>utils\<close>, which is not among the sources,
  is the squared Euclidean distance of two points. An argument that is no pair of numbers
  is a \<^verbatim>\<open>TypeError\<close>.
\<close>

fun distance2 :: "pyval \<Rightarrow> pyval \<Rightarrow> error + int" where
  "distance2 (PTuple [PInt ax, PInt ay]) (PTuple [PInt bx, PInt by]) =
     Inr ((ax - bx) * (ax - bx) + (ay - by) * (ay - by))"
| "distance2 _ _ = Inl TypeError"

text \<open>
  Modelled from the spec: \<^verbatim>\<open>vector_add\<close> of \<^verbatim>\<open>utils\<close>, which is not among the sources,
  is the sum of two vectors by components (Forward attempts to move to location +
  heading). An argument that is no pair of numbers is a \<^verbatim>\<open>TypeError\<close>.
\<close>

fun vector_add :: "pyval \<Rightarrow> pyval \<Rightarrow> error + loc" where
  "vector_add (PTuple [PInt ax, PInt ay]) (PTuple [PInt bx, PInt by]) = Inr (ax + bx, ay + by)"
| "vector_add _ _ = Inl TypeError"

text \<open>\<^verbatim>\<open>XYEnvironment.objects_near(self, location, radius)\<close>, called with the arguments
  after \<^verbatim>\<open>self\<close>.\<close>

fun near_loop :: "(ref \<Rightarrow> entity) \<Rightarrow> pyval \<Rightarrow> int \<Rightarrow> ref list \<Rightarrow> error + ref list" where
  "near_loop h l radius2 [] = Inr []"
| "near_loop h l radius2 (obj # rest) =
     (case distance2 l (of_loc_opt (location (h obj))) of
        Inl err \<Rightarrow> Inl err
      | Inr d \<Rightarrow>
          (case near_loop h l radius2 rest of
             Inl err \<Rightarrow> Inl err
           | Inr objs \<Rightarrow> Inr (if d \<le> radius2 then obj # objs else objs)))"

definition objects_near :: "'a env_scheme \<Rightarrow> pyval list \<Rightarrow> error + ref list" where
  "objects_near e args =
     (case bind_args 2 0 args of
        Inl err \<Rightarrow> Inl err
      | Inr bound \<Rightarrow>
          (case bound ! 1 of
             PInt radius \<Rightarrow> near_loop (heap e) (bound ! 0) (radius * radius) (objects e)
           | _ \<Rightarrow> Inl TypeError))"

definition object_percept :: "'a env_scheme \<Rightarrow> ref \<Rightarrow> ref \<Rightarrow> string" where
  "object_percept e obj agent = class_name (klass (heap e obj))"

text \<open>\<^verbatim>\<open>XYEnvironment.percept\<close> calls \<^verbatim>\<open>self.objects_near(agent)\<close>.\<close>

definition xy_percept :: "'a env_scheme \<Rightarrow> ref \<Rightarrow> error + string list" where
  "xy_percept e agent =
     (case objects_near e [PObj agent] of
        Inl err \<Rightarrow> Inl err
      | Inr objs \<Rightarrow> Inr (map (\<lambda>obj. object_percept e obj agent) objs))"

text \<open>
  \<^verbatim>\<open>turn_heading(self, heading, inc, headings=[(1, 0), (0, 1), (-1, 0), (0, -1)])\<close>, a
  function of the module, called with all its arguments: \<^verbatim>\<open>self\<close> is its first parameter.
  \<^verbatim>\<open>headings.index\<close> is a \<^verbatim>\<open>ValueError\<close> when the heading is not in the list.
\<close>

definition default_headings :: pyval where
  "default_headings = PList [PTuple [PInt 1, PInt 0], PTuple [PInt 0, PInt 1],
     PTuple [PInt (- 1), PInt 0], PTuple [PInt 0, PInt (- 1)]]"

fun index :: "pyval list \<Rightarrow> pyval \<Rightarrow> nat option" where
  "index [] v = None"
| "index (x # xs) v = (if x = v then Some 0 else map_option Suc (index xs v))"

definition turn_heading_body :: "pyval \<Rightarrow> pyval \<Rightarrow> pyval \<Rightarrow> error + pyval" where
  "turn_heading_body heading_arg inc headings =
     (case (case headings of PList hs \<Rightarrow> Inr hs | PTuple hs \<Rightarrow> Inr hs | _ \<Rightarrow> Inl AttributeError) of
        Inl err \<Rightarrow> Inl err
      | Inr hs \<Rightarrow>
          (case index hs heading_arg of
             None \<Rightarrow> Inl ValueError
           | Some i \<Rightarrow>
               (case inc of
                  PInt n \<Rightarrow> Inr (hs ! nat ((int i + n) mod int (length hs)))
                | _ \<Rightarrow> Inl TypeError)))"

definition turn_heading :: "pyval list \<Rightarrow> error + pyval" where
  "turn_heading args =
     (case bind_args 3 1 args of
        Inl err \<Rightarrow> Inl err
      | Inr bound \<Rightarrow>
          turn_heading_body (bound ! 1) (bound ! 2)
            (if length bound = 4 then bound ! 3 else default_headings))"

text \<open>\<^verbatim>\<open>XYEnvironment.move_to\<close>; the messages it prints are left out.\<close>

definition move_to :: "'a env_scheme \<Rightarrow> ref \<Rightarrow> loc \<Rightarrow> 'a env_scheme" where
  "move_to e obj destination =
     (if find_at e Obstacle (Some destination)
      then update_entity obj (\<lambda>x. x\<lparr>bump := Some True\<rparr>) e
      else update_entity obj (\<lambda>x. x\<lparr>bump := Some False, location := Some destination\<rparr>) e)"

text \<open>No class of the module defines \<^verbatim>\<open>is_grabable\<close>: the call is an \<^verbatim>\<open>AttributeError\<close>.\<close>

definition is_grabable :: "entity \<Rightarrow> ref \<Rightarrow> error + bool" where
  "is_grabable obj agent = Inl AttributeError"

fun grabable :: "(ref \<Rightarrow> entity) \<Rightarrow> ref \<Rightarrow> ref list \<Rightarrow> error + ref list" where
  "grabable h agent [] = Inr []"
| "grabable h agent (obj # rest) =
     (case is_grabable (h obj) agent of
        Inl err \<Rightarrow> Inl err
      | Inr b \<Rightarrow>
          (case grabable h agent rest of
             Inl err \<Rightarrow> Inl err
           | Inr objs \<Rightarrow> Inr (if b then obj # objs else objs)))"

text \<open>\<^verbatim>\<open>XYEnvironment.execute_action\<close>: a turn calls \<^verbatim>\<open>turn_heading(agent.heading, inc)\<close>
  and stores what it returns.\<close>

definition turn :: "'a env_scheme \<Rightarrow> ref \<Rightarrow> int \<Rightarrow> error + 'a env_scheme" where
  "turn e agent inc =
     (case heading (heap e agent) of
        None \<Rightarrow> Inl AttributeError
      | Some h \<Rightarrow>
          (case turn_heading [h, PInt inc] of
             Inl err \<Rightarrow> Inl err
           | Inr h' \<Rightarrow> Inr (update_entity agent (\<lambda>x. x\<lparr>heading := Some h'\<rparr>) e)))"

definition xy_execute_action :: "'a env_scheme \<Rightarrow> ref \<Rightarrow> action \<Rightarrow> error + 'a env_scheme" where
  "xy_execute_action e agent act =
     (case
        (if act = Some ''TurnRight'' then turn e agent (- 1)
         else if act = Some ''TurnLeft'' then turn e agent 1
         else if act = Some ''Forward'' then
           (case heading (heap e agent) of
              None \<Rightarrow> Inl AttributeError
            | Some h \<Rightarrow>
                (case vector_add h (of_loc_opt (location (heap e agent))) of
                   Inl err \<Rightarrow> Inl err
                 | Inr destination \<Rightarrow> Inr (move_to e agent destination)))
         else if act = Some ''Grab'' then
           (case grabable (heap e) agent (objects_at e (location (heap e agent))) of
              Inl err \<Rightarrow> Inl err
            | Inr objs \<Rightarrow>
                (if objs \<noteq> [] then
                   (case holding (heap e agent) of
                      None \<Rightarrow> Inl AttributeError
                    | Some hs \<Rightarrow>
                        Inr (update_entity agent (\<lambda>x. x\<lparr>holding := Some (hs @ [hd objs])\<rparr>) e))
                 else Inr e))
         else if act = Some ''Release'' then
           (case holding (heap e agent) of
              None \<Rightarrow> Inl AttributeError
            | Some hs \<Rightarrow>
                (if hs \<noteq> [] then
                   Inr (update_entity agent (\<lambda>x. x\<lparr>holding := Some (butlast hs)\<rparr>) e)
                 else Inr e))
         else Inr e)
      of
        Inl err \<Rightarrow> Inl err
      | Inr e' \<Rightarrow> Inr (update_entity agent (\<lambda>x. x\<lparr>bump := Some False\<rparr>) e'))"

text \<open>
  \<^verbatim>\<open>random.choice(seq)\<close> is \<^verbatim>\<open>seq[int(random() * len(seq))]\<close>: \<open>d\<close> stands for the
  generator's draw, reduced to an index of the sequence. A value without a length is a
  \<^verbatim>\<open>TypeError\<close>, an empty sequence an \<^verbatim>\<open>IndexError\<close>.
\<close>

definition random_choice :: "nat \<Rightarrow> pyval \<Rightarrow> error + pyval" where
  "random_choice d seq =
     (case (case seq of PList xs \<Rightarrow> Inr xs | PTuple xs \<Rightarrow> Inr xs | _ \<Rightarrow> Inl TypeError) of
        Inl err \<Rightarrow> Inl err
      | Inr xs \<Rightarrow> (if xs = [] then Inl IndexError else Inr (xs ! (d mod length xs))))"

text \<open>\<^verbatim>\<open>XYEnvironment.default_location\<close>, with the two draws of the generator. The
  width and the height are the integers of the constructor.\<close>

definition xy_default_location ::
  "nat \<Rightarrow> nat \<Rightarrow> 'a xy_environment_scheme \<Rightarrow> ref \<Rightarrow> error + pyval"
where
  "xy_default_location d1 d2 e obj =
     (case random_choice d1 (PInt (width e)) of
        Inl err \<Rightarrow> Inl err
      | Inr x \<Rightarrow>
          (case random_choice d2 (PInt (height e)) of
             Inl err \<Rightarrow> Inl err
           | Inr y \<Rightarrow> Inr (PTuple [x, y])))"

text \<open>\<^verbatim>\<open>Environment.default_location\<close> and \<^verbatim>\<open>TrivialVacuumEnvironment.default_location\<close>.\<close>

definition env_default_location :: "'a env_scheme \<Rightarrow> ref \<Rightarrow> error + pyval" where
  "env_default_location e obj = Inr PNone"

definition trivial_default_location :: "nat \<Rightarrow> 'a env_scheme \<Rightarrow> ref \<Rightarrow> error + pyval" where
  "trivial_default_location d e obj = random_choice d (PList [of_loc loc_A, of_loc loc_B])"

text \<open>
  \<^verbatim>\<open>Environment.add_object\<close>. \<^verbatim>\<open>location or self.default_location(object)\<close> takes the
  argument when it is a pair, which is true as every non-empty tuple is, and asks for the
  default when it is \<^verbatim>\<open>None\<close>. A default that is neither a pair of integers nor \<^verbatim>\<open>None\<close>
  does not fit the attribute of the model.
\<close>

definition env_add_object ::
  "('a env_scheme \<Rightarrow> ref \<Rightarrow> error + pyval) \<Rightarrow> ref \<Rightarrow> loc option \<Rightarrow> 'a env_scheme
     \<Rightarrow> error + 'a env_scheme"
where
  "env_add_object default_location obj l e =
     (case (case l of
              Some p \<Rightarrow> Inr (Some p)
            | None \<Rightarrow>
                (case default_location e obj of
                   Inl err \<Rightarrow> Inl err
                 | Inr PNone \<Rightarrow> Inr None
                 | Inr v \<Rightarrow> (case to_loc v of None \<Rightarrow> Inl TypeError | Some p \<Rightarrow> Inr (Some p))))
      of
        Inl err \<Rightarrow> Inl err
      | Inr l' \<Rightarrow>
          (let e1 = update_entity obj (\<lambda>x. x\<lparr>location := l'\<rparr>) e;
               e2 = e1\<lparr>objects := objects e1 @ [obj]\<rparr>
           in Inr (if isinstance (klass (heap e2 obj)) Agent
                   then (update_entity obj (\<lambda>x. x\<lparr>performance := Some 0\<rparr>) e2)
                          \<lparr>agents := agents e2 @ [obj]\<rparr>
                   else e2)))"

text \<open>\<^verbatim>\<open>XYEnvironment.add_object(self, object, location=(1, 1))\<close>.\<close>

definition xy_add_object ::
  "nat \<Rightarrow> nat \<Rightarrow> ref \<Rightarrow> loc option \<Rightarrow> 'a xy_environment_scheme
     \<Rightarrow> error + 'a xy_environment_scheme"
where
  "xy_add_object d1 d2 obj l e =
     (case env_add_object (xy_default_location d1 d2) obj l e of
        Inl err \<Rightarrow> Inl err
      | Inr e1 \<Rightarrow>
          (let e2 = update_entity obj (\<lambda>x. x\<lparr>holding := Some [], held := Some None\<rparr>) e1
           in Inr (e2\<lparr>objects := objects e2 @ [obj]\<rparr>)))"

subsection \<open>The grid vacuum environment\<close>

text \<open>
  Modelled from the spec: \<^verbatim>\<open>if_(test, result, alternative)\<close> of \<^verbatim>\<open>utils\<close>, which is not
  among the sources: the percept is Dirty when dirt is present and Clean otherwise, Bump
  when the flag is set and None otherwise.
\<close>

definition if_else :: "bool \<Rightarrow> 'a \<Rightarrow> 'a \<Rightarrow> 'a" where
  [simp]: "if_else test result alternative = (if test then result else alternative)"

text \<open>\<^verbatim>\<open>VacuumEnvironment.percept\<close>.\<close>

definition vacuum_percept :: "'a env_scheme \<Rightarrow> ref \<Rightarrow> error + (string \<times> string)" where
  "vacuum_percept e agent =
     (let st = if_else (find_at e Dirt (location (heap e agent))) ''Dirty'' ''Clean''
      in case bump (heap e agent) of
           None \<Rightarrow> Inl AttributeError
         | Some b \<Rightarrow> Inr (st, if_else b ''Bump'' ''None''))"

definition vacuum_execute_action :: "'a env_scheme \<Rightarrow> ref \<Rightarrow> action \<Rightarrow> error + 'a env_scheme" where
  "vacuum_execute_action e agent act =
     (case (if act = Some ''Suck'' then
              (if find_at e Dirt (location (heap e agent)) then add_performance agent 100 e
               else Inr e)
            else Inr e)
      of
        Inl err \<Rightarrow> Inl err
      | Inr e1 \<Rightarrow>
          (case add_performance agent (- 1) e1 of
             Inl err \<Rightarrow> Inl err
           | Inr e2 \<Rightarrow> xy_execute_action e2 agent act))"

definition xy_methods :: "('a env_scheme, string list) methods" where
  "xy_methods = \<lparr>percept = xy_percept, execute_action = xy_execute_action,
     exogenous_change = (\<lambda>e. e)\<rparr>"

definition vacuum_methods :: "('a env_scheme, string \<times> string) methods" where
  "vacuum_methods = \<lparr>percept = vacuum_percept, execute_action = vacuum_execute_action,
     exogenous_change = (\<lambda>e. e)\<rparr>"

subsection \<open>Constructors and agent programs\<close>

text \<open>\<^verbatim>\<open>XYEnvironment.__init__\<close>; the store of a new environment holds no entity yet.\<close>

definition new_xy_environment :: "int \<Rightarrow> int \<Rightarrow> xy_environment" where
  "new_xy_environment w h = \<lparr>objects = [], agents = [], heap = (\<lambda>_. new_object Object),
     width = w, height = h\<rparr>"

text \<open>The program of \<^verbatim>\<open>ReflexVacuumAgent\<close>, on the percept \<^verbatim>\<open>(location, status)\<close>.\<close>

primcorec reflex_vacuum_program :: "(loc \<times> string) program" where
  "call reflex_vacuum_program = (\<lambda>p.
     (if snd p = ''Dirty'' then Some ''Suck''
      else if fst p = loc_A then Some ''Right''
      else if fst p = loc_B then Some ''Left''
      else None, reflex_vacuum_program))"


text \<open>A program that answers every percept with the same action.\<close>

primcorec always :: "action \<Rightarrow> 'p program" where
  "call (always act) = (\<lambda>p. (act, always act))"

definition idle_programs :: "'p programs" where
  "idle_programs = (\<lambda>_. always None)"

text \<open>
  \<^verbatim>\<open>TrivialVacuumEnvironment.__init__\<close>: the status of each location is
  \<^verbatim>\<open>random.choice(['Clean', 'Dirty'])\<close>, one draw of the generator each.
\<close>

definition new_trivial_vacuum_environment ::
  "nat stream
     \<Rightarrow> (trivial_vacuum_environment \<times> (loc \<times> string) programs) \<times> nat stream"
where
  "new_trivial_vacuum_environment rng =
     ((\<lparr>objects = [], agents = [], heap = (\<lambda>_. new_object Object),
        status = [loc_A \<mapsto> [''Clean'', ''Dirty''] ! (shd rng mod 2),
                  loc_B \<mapsto> [''Clean'', ''Dirty''] ! (shd (stl rng) mod 2)]\<rparr>,
       idle_programs), stl (stl rng))"

subsection \<open>The evaluation harness\<close>

text \<open>
  What the harness asks of an environment class beside the methods above: the call
  \<^verbatim>\<open>env.add_object(agent)\<close> without a location. It may draw from the random generator,
  whose state \<open>'r\<close> it takes and returns.
\<close>

record ('e, 'p, 'r) environment_class = "('e, 'p) methods" +
  add_object :: "'r \<Rightarrow> ref \<Rightarrow> 'e \<Rightarrow> error + ('e \<times> 'r)"


text \<open>\<^verbatim>\<open>VacuumEnvironment\<close> inherits \<^verbatim>\<open>XYEnvironment.add_object\<close>, whose location
  defaults to \<^verbatim>\<open>(1, 1)\<close>: no default location is asked for.\<close>

definition vacuum_class ::
  "('a xy_environment_scheme, string \<times> string, 'r) environment_class"
where
  "vacuum_class = \<lparr>percept = vacuum_percept, execute_action = vacuum_execute_action,
     exogenous_change = (\<lambda>e. e),
     add_object = (\<lambda>rng obj e.
       (case xy_add_object 0 0 obj (Some (1, 1)) e of
          Inl err \<Rightarrow> Inl err
        | Inr e' \<Rightarrow> Inr (e', rng)))\<rparr>"





















subsection \<open>The tick in two phases, and the harness on values\<close>

text \<open>
  The tick as the specification words it: first the percept of every agent, all taken
  on the environment as it is before the tick; then the programs; then the actions in
  agent order; then the exogenous change.
\<close>

fun percepts_of :: "('e, 'p, 'z) methods_scheme \<Rightarrow> 'e \<Rightarrow> ref list \<Rightarrow> error + 'p list" where
  "percepts_of m e [] = Inr []"
| "percepts_of m e (agent # rest) =
     (case percept m e agent of
        Inl err \<Rightarrow> Inl err
      | Inr p \<Rightarrow> (case percepts_of m e rest of Inl err \<Rightarrow> Inl err | Inr ps \<Rightarrow> Inr (p # ps)))"

fun call_programs :: "'p programs \<Rightarrow> (ref \<times> 'p) list \<Rightarrow> action list \<times> 'p programs" where
  "call_programs progs [] = ([], progs)"
| "call_programs progs ((agent, p) # rest) =
     (let (act, prog') = call (progs agent) p;
          (acts, progs') = call_programs (progs(agent := prog')) rest
      in (act # acts, progs'))"

definition step_two_phase ::
  "('a env_scheme, 'p, 'z) methods_scheme \<Rightarrow> 'a env_scheme \<times> 'p programs
     \<Rightarrow> error + ('a env_scheme \<times> 'p programs)"
where
  "step_two_phase m s =
     (if is_done (fst s) then Inr s
      else (case percepts_of m (fst s) (agents (fst s)) of
              Inl err \<Rightarrow> Inl err
            | Inr ps \<Rightarrow>
                (let (actions, progs') = call_programs (snd s) (zip (agents (fst s)) ps)
                 in case execute_actions m (fst s) (zip (agents (fst s)) actions) of
                      Inl err \<Rightarrow> Inl err
                    | Inr e' \<Rightarrow> Inr (exogenous_change m e', progs'))))"










subsection \<open>Observations and example states\<close>

text \<open>An attribute of an entity after a call, or the error the call raised.\<close>

definition attr_of :: "(entity \<Rightarrow> 'x) \<Rightarrow> ref \<Rightarrow> error + 'a env_scheme \<Rightarrow> error + 'x" where
  "attr_of f r res = (case res of Inl err \<Rightarrow> Inl err | Inr e \<Rightarrow> Inr (f (heap e r)))"

definition and_then :: "error + 'a \<Rightarrow> ('a \<Rightarrow> error + 'b) \<Rightarrow> error + 'b" where
  "and_then res f = (case res of Inl err \<Rightarrow> Inl err | Inr x \<Rightarrow> f x)"

text \<open>
  A grid with an agent (reference 0) whose heading has been set to West, a wall (1) and
  some dirt (2), none of them registered yet.
\<close>

definition grid_start :: xy_environment where
  "grid_start = (new_xy_environment 10 10)\<lparr>heap :=
     (\<lambda>_. new_object Object)
       (0 := (new_agent Agent)\<lparr>heading := Some (of_loc (- 1, 0))\<rparr>,
        1 := new_object Wall,
        2 := new_object Dirt)\<rparr>"

text \<open>The grid after \<^verbatim>\<open>add_object(wall, (0, 1))\<close>, \<^verbatim>\<open>add_object(dirt, (1, 1))\<close> and
  \<^verbatim>\<open>add_object(agent)\<close>: the agent stands on the dirt and faces the wall.\<close>

definition facing_wall :: xy_environment where
  "facing_wall = \<lparr>objects = [1, 1, 2, 2, 0, 0], agents = [0],
     heap = (\<lambda>_. new_object Object)
       (0 := (new_agent Agent)\<lparr>heading := Some (of_loc (- 1, 0)), location := Some (1, 1),
               performance := Some 0, holding := Some [], held := Some None\<rparr>,
        1 := (new_object Wall)\<lparr>location := Some (0, 1), holding := Some [], held := Some None\<rparr>,
        2 := (new_object Dirt)\<lparr>location := Some (1, 1), holding := Some [], held := Some None\<rparr>),
     width = 10, height = 10\<rparr>"

text \<open>A two-location world, both locations dirty, with one registered agent at the
  given location, and with two reflex agents at A.\<close>

definition both_dirty :: "loc \<Rightarrow> trivial_vacuum_environment" where
  "both_dirty l = \<lparr>objects = [0], agents = [0],
     heap = (\<lambda>_. new_object Object)
       (0 := (new_agent ReflexVacuumAgent)\<lparr>performance := Some 0, location := Some l\<rparr>),
     status = [loc_A \<mapsto> ''Dirty'', loc_B \<mapsto> ''Dirty'']\<rparr>"

definition two_reflex_agents :: trivial_vacuum_environment where
  "two_reflex_agents = \<lparr>objects = [0, 1], agents = [0, 1],
     heap = (\<lambda>_. (new_agent ReflexVacuumAgent)\<lparr>performance := Some 0, location := Some loc_A\<rparr>),
     status = [loc_A \<mapsto> ''Dirty'', loc_B \<mapsto> ''Dirty'']\<rparr>"

definition reflex_programs :: "(loc \<times> string) programs" where
  "reflex_programs = (\<lambda>_. reflex_vacuum_program)"


text \<open>The same world with its only agent not alive.\<close>

definition dead_agent :: trivial_vacuum_environment where
  "dead_agent = update_entity 0 (\<lambda>x. x\<lparr>alive := Some False\<rparr>) (both_dirty loc_A)"

text \<open>Every agent answers every percept with Suck.\<close>

definition suck_programs :: "(string \<times> string) programs" where
  "suck_programs = (\<lambda>_. always (Some ''Suck''))"

text \<open>The grid with a second agent (reference 3), registered at (2, 2), whose program
  answers every percept with NoOp.\<close>

definition two_on_grid :: xy_environment where
  "two_on_grid = \<lparr>objects = [1, 1, 2, 2, 0, 0, 3, 3], agents = [0, 3],
     heap = (heap facing_wall)
       (3 := (new_agent Agent)\<lparr>location := Some (2, 2), performance := Some 0,
               holding := Some [], held := Some None\<rparr>),
     width = 10, height = 10\<rparr>"

definition grid_programs :: "(string \<times> string) programs" where
  "grid_programs = suck_programs(3 := always (Some ''NoOp''))"

text \<open>Two environments that differ at most in one entity, whose class, liveness and
  performance are the same in both.\<close>

definition same_but :: "ref \<Rightarrow> 'a env_scheme \<Rightarrow> 'a env_scheme \<Rightarrow> bool" where
  "same_but b e e' \<longleftrightarrow>
     objects e' = objects e \<and> agents e' = agents e
     \<and> (\<forall>x. x \<noteq> b \<longrightarrow> heap e' x = heap e x)
     \<and> klass (heap e' b) = klass (heap e b) \<and> alive (heap e' b) = alive (heap e b)
     \<and> performance (heap e' b) = performance (heap e b)"

text \<open>The agent has a performance, its bump flag is false, there is dirt at its location,
  and every registered agent is an \<^verbatim>\<open>Agent\<close>.\<close>

definition on_dirt :: "'a env_scheme \<Rightarrow> ref \<Rightarrow> int \<Rightarrow> bool" where
  "on_dirt e a p \<longleftrightarrow>
     performance (heap e a) = Some p \<and> bump (heap e a) = Some False
     \<and> find_at e Dirt (location (heap e a))
     \<and> (\<forall>b \<in> set (agents e). isinstance (klass (heap e b)) Agent)"





section \<open>Properties\<close>

subsection \<open>Termination of a run\<close>

lemma is_done_loop_iff:
  "is_done_loop h as \<longleftrightarrow> (\<forall>a \<in> set as. alive (h a) \<noteq> Some True)"
  by (induction as) (auto simp: is_alive_def split: option.splits)

lemma is_done_iff:
  "is_done e \<longleftrightarrow> (\<forall>a \<in> set (agents e). alive (heap e a) \<noteq> Some True)"
  by (simp add: is_done_def is_done_loop_iff)

lemma run_loop_done: "is_done (fst s) \<Longrightarrow> run_loop m n s = Inr (s, 0)"
  by (cases n) simp_all

lemma run_loop_ticks:
  "run_loop m n s = Inr (s', k) \<Longrightarrow> k \<le> n \<and> (k < n \<longrightarrow> is_done (fst s'))"
proof (induction n arbitrary: s s' k)
  case 0
  then show ?case by simp
next
  case (Suc n)
  show ?case
  proof (cases "is_done (fst s)")
    case True
    with Suc.prems show ?thesis by simp
  next
    case False
    with Suc.prems obtain s1 k1
      where r: "run_loop m n s1 = Inr (s', k1)" and k: "k = Suc k1"
      by (auto split: sum.splits)
    from Suc.IH[OF r] k show ?thesis by simp
  qed
qed

lemma run_loop_prefix:
  "run_loop m n s = Inr (s', k) \<Longrightarrow> j < k \<Longrightarrow>
     \<exists>sj. run_loop m j s = Inr (sj, j) \<and> \<not> is_done (fst sj)"
proof (induction n arbitrary: s s' k j)
  case 0
  then show ?case by simp
next
  case (Suc n)
  from Suc.prems have nd: "\<not> is_done (fst s)" by (auto split: if_splits)
  with Suc.prems obtain s1 k1
    where st: "step m s = Inr s1" and r: "run_loop m n s1 = Inr (s', k1)" and k: "k = Suc k1"
    by (auto split: sum.splits)
  show ?case
  proof (cases j)
    case 0
    with nd show ?thesis by simp
  next
    case (Suc j')
    with Suc.prems k have "j' < k1" by simp
    from Suc.IH[OF r this] obtain sj
      where "run_loop m j' s1 = Inr (sj, j')" "\<not> is_done (fst sj)" by blast
    with Suc nd st show ?thesis by simp
  qed
qed

text \<open>
  C7. \<^verbatim>\<open>is_done\<close> is true iff no registered agent has a true \<^verbatim>\<open>alive\<close> attribute, so it
  is true of an environment without agents. A run on an environment that is done, as one
  whose only agent is not alive, calls \<^verbatim>\<open>step\<close> zero times and returns the state as it
  is. A run that returns has made at most \<open>steps\<close> ticks; when it has made fewer, the
  environment it returns is done; and no tick was made on an environment that was done:
  after each smaller number of ticks the environment was not done yet.
\<close>

theorem run_terminates_when_done:
  "(is_done e \<longleftrightarrow> (\<forall>a \<in> set (agents e). alive (heap e a) \<noteq> Some True))
   \<and> (agents e = [] \<longrightarrow> is_done e)
   \<and> (agents e = [a] \<and> alive (heap e a) = Some False \<longrightarrow>
        run m steps (e, progs) = Inr ((e, progs), 0))
   \<and> (is_done e \<longrightarrow> run m steps (e, progs) = Inr ((e, progs), 0))
   \<and> (run m steps s = Inr (s', k) \<longrightarrow>
        int k \<le> max 0 steps \<and> (int k < steps \<longrightarrow> is_done (fst s'))
        \<and> (\<forall>j < k. \<exists>sj. run m (int j) s = Inr (sj, j) \<and> \<not> is_done (fst sj)))"
proof (intro conjI impI)
  show "is_done e \<longleftrightarrow> (\<forall>a \<in> set (agents e). alive (heap e a) \<noteq> Some True)"
    by (rule is_done_iff)
  show "is_done e" if "agents e = []"
    using that by (simp add: is_done_iff)
  show "run m steps (e, progs) = Inr ((e, progs), 0)"
    if "agents e = [a] \<and> alive (heap e a) = Some False"
    using that by (simp add: run_def run_loop_done is_done_iff)
  show "run m steps (e, progs) = Inr ((e, progs), 0)" if "is_done e"
    using that by (simp add: run_def run_loop_done)
  assume r: "run m steps s = Inr (s', k)"
  then have r': "run_loop m (nat steps) s = Inr (s', k)" by (simp add: run_def)
  from run_loop_ticks[OF r'] show "int k \<le> max 0 steps" by linarith
  from run_loop_ticks[OF r'] show "is_done (fst s')" if "int k < steps"
    using that by simp
  show "\<forall>j < k. \<exists>sj. run m (int j) s = Inr (sj, j) \<and> \<not> is_done (fst sj)"
    using run_loop_prefix[OF r'] by (simp add: run_def)
qed

text \<open>
  C7, witness: a grid without agents is done; a run of five steps on the world whose only
  agent is not alive makes no tick; a run of two steps with a live reflex agent makes two
  ticks, neither of them on an environment that was done.
\<close>

theorem run_terminates_when_done_witness:
  "is_done (new_xy_environment 10 10)
   \<and> run trivial_methods 5 (dead_agent, reflex_programs) = Inr ((dead_agent, reflex_programs), 0)
   \<and> (\<exists>s'. run trivial_methods 2 (both_dirty loc_A, reflex_programs) = Inr (s', 2)
         \<and> (\<forall>j < 2. \<exists>sj. run trivial_methods (int j) (both_dirty loc_A, reflex_programs) = Inr (sj, j)
               \<and> \<not> is_done (fst sj)))"
proof (intro conjI)
  have "agents (new_xy_environment 10 10) = []" by (simp add: new_xy_environment_def)
  with run_terminates_when_done[of "new_xy_environment 10 10"]
  show "is_done (new_xy_environment 10 10)" by blast
  have "agents dead_agent = [0] \<and> alive (heap dead_agent 0) = Some False"
    by (simp add: dead_agent_def both_dirty_def update_entity_def)
  with run_terminates_when_done[of dead_agent 0 trivial_methods 5 reflex_programs]
  show "run trivial_methods 5 (dead_agent, reflex_programs) = Inr ((dead_agent, reflex_programs), 0)"
    by blast
  have "\<exists>s'. run trivial_methods 2 (both_dirty loc_A, reflex_programs) = Inr (s', 2)"
    by (simp add: run_def eval_nat_numeral step_def is_done_def is_alive_def both_dirty_def
        reflex_programs_def new_agent_def new_object_def trivial_methods_def trivial_percept_def
        trivial_execute_action_def add_performance_def update_entity_def loc_A_def loc_B_def)
  then obtain s' where r: "run trivial_methods 2 (both_dirty loc_A, reflex_programs) = Inr (s', 2)" ..
  with run_terminates_when_done[of _ _ trivial_methods 2 _ "(both_dirty loc_A, reflex_programs)" s' 2]
  have "\<forall>j < 2. \<exists>sj. run trivial_methods (int j) (both_dirty loc_A, reflex_programs) = Inr (sj, j)
               \<and> \<not> is_done (fst sj)"
    by blast
  with r show "\<exists>s'. run trivial_methods 2 (both_dirty loc_A, reflex_programs) = Inr (s', 2)
         \<and> (\<forall>j < 2. \<exists>sj. run trivial_methods (int j) (both_dirty loc_A, reflex_programs) = Inr (sj, j)
               \<and> \<not> is_done (fst sj))"
    by blast
qed

subsection \<open>Scoring in the two-location vacuum environment\<close>

lemmas trivial_defs = trivial_execute_action_def add_performance_def update_entity_def
  attr_of_def loc_A_def loc_B_def

lemma both_dirty_registered:
  "env_add_object (trivial_default_location 1) 0 None
     ((fst (fst (new_trivial_vacuum_environment (3 ## 3 ## sconst 0))))
        \<lparr>heap := (\<lambda>_. new_object Object)(0 := new_agent ReflexVacuumAgent)\<rparr>)
   = Inr (both_dirty loc_B)"
  by (simp add: env_add_object_def trivial_default_location_def random_choice_def of_loc_def
      loc_A_def loc_B_def new_trivial_vacuum_environment_def update_entity_def Let_def
      isinstance_def new_agent_def new_object_def both_dirty_def)

text \<open>
  C6, as the code has it. In the two-location vacuum environment with both locations
  dirty, an agent that stands at A with performance 0 and performs Suck, Right, Suck ends
  with performance exactly 19. Right moves the agent to B and Left to A, each at the cost
  of 1, whatever the statuses; Suck sets the agent's location clean without moving the
  agent, and adds 10 when the location was dirty.
\<close>

theorem two_location_scoring:
  "(status e loc_A = Some ''Dirty'' \<and> status e loc_B = Some ''Dirty''
      \<and> location (heap e agent) = Some loc_A \<and> performance (heap e agent) = Some 0 \<longrightarrow>
      attr_of performance agent
        (perform trivial_execute_action agent [Some ''Suck'', Some ''Right'', Some ''Suck''] e)
        = Inr (Some 19))
   \<and> (performance (heap e agent) = Some p \<longrightarrow>
        trivial_execute_action e agent (Some ''Right'') =
          Inr (update_entity agent (\<lambda>x. x\<lparr>location := Some loc_B, performance := Some (p - 1)\<rparr>) e)
        \<and> trivial_execute_action e agent (Some ''Left'') =
          Inr (update_entity agent (\<lambda>x. x\<lparr>location := Some loc_A, performance := Some (p - 1)\<rparr>) e))
   \<and> (performance (heap e agent) = Some p \<and> location (heap e agent) = Some l
        \<and> status e l = Some st \<longrightarrow>
        trivial_execute_action e agent (Some ''Suck'') =
          Inr ((if st = ''Dirty''
                then update_entity agent (\<lambda>x. x\<lparr>performance := Some (p + 10)\<rparr>) e
                else e)\<lparr>status := (status e)(l \<mapsto> ''Clean'')\<rparr>))"
  by (simp add: trivial_defs)

text \<open>
  C6, witness: in the world with both locations dirty and the agent at A with performance
  0, Suck, Right, Suck gives 19; Right alone leaves the agent at B with performance -1;
  Suck alone gives 10, leaves the agent at A and A clean.
\<close>

theorem two_location_scoring_witness:
  "attr_of performance 0
     (perform trivial_execute_action 0 [Some ''Suck'', Some ''Right'', Some ''Suck'']
        (both_dirty loc_A)) = Inr (Some 19)
   \<and> attr_of location 0 (trivial_execute_action (both_dirty loc_A) 0 (Some ''Right''))
       = Inr (Some loc_B)
   \<and> attr_of performance 0 (trivial_execute_action (both_dirty loc_A) 0 (Some ''Right''))
       = Inr (Some (- 1))
   \<and> attr_of performance 0 (trivial_execute_action (both_dirty loc_A) 0 (Some ''Suck''))
       = Inr (Some 10)
   \<and> attr_of location 0 (trivial_execute_action (both_dirty loc_A) 0 (Some ''Suck''))
       = Inr (Some loc_A)
   \<and> map_sum id (\<lambda>e. status e loc_A) (trivial_execute_action (both_dirty loc_A) 0 (Some ''Suck''))
       = Inr (Some ''Clean'')"
proof -
  have h: "status (both_dirty loc_A) loc_A = Some ''Dirty''"
    "status (both_dirty loc_A) loc_B = Some ''Dirty''"
    "location (heap (both_dirty loc_A) 0) = Some loc_A"
    "performance (heap (both_dirty loc_A) 0) = Some 0"
    by (simp_all add: both_dirty_def loc_A_def loc_B_def)
  note t = two_location_scoring[of "both_dirty loc_A" 0 0 loc_A "''Dirty''"]
  from t h have 1: "attr_of performance 0
     (perform trivial_execute_action 0 [Some ''Suck'', Some ''Right'', Some ''Suck'']
        (both_dirty loc_A)) = Inr (Some 19)"
    by blast
  from t h have 2: "trivial_execute_action (both_dirty loc_A) 0 (Some ''Right'') =
      Inr (update_entity 0 (\<lambda>x. x\<lparr>location := Some loc_B, performance := Some (0 - 1)\<rparr>)
             (both_dirty loc_A))"
    by blast
  from t h have 3: "trivial_execute_action (both_dirty loc_A) 0 (Some ''Suck'') =
      Inr ((if ''Dirty'' = ''Dirty''
            then update_entity 0 (\<lambda>x. x\<lparr>performance := Some (0 + 10)\<rparr>) (both_dirty loc_A)
            else both_dirty loc_A)\<lparr>status := (status (both_dirty loc_A))(loc_A \<mapsto> ''Clean'')\<rparr>)"
    by blast
  show ?thesis
    unfolding 2 3 using 1 h(3) by (simp add: attr_of_def update_entity_def)
qed

text \<open>
  C6, counterexample to the claim as stated: both locations are dirty, the agent has been
  registered at B (the default location is drawn at random), and Suck, Right, Suck ends
  with performance 9, not 19: Right leaves the agent at B, which the first Suck has cleaned.
\<close>

theorem suck_right_suck_from_B_scores_9:
  "status (both_dirty loc_B) loc_A = Some ''Dirty''
   \<and> status (both_dirty loc_B) loc_B = Some ''Dirty''
   \<and> performance (heap (both_dirty loc_B) 0) = Some 0
   \<and> attr_of performance 0
       (perform trivial_execute_action 0 [Some ''Suck'', Some ''Right'', Some ''Suck'']
          (both_dirty loc_B)) = Inr (Some 9)"
  by (simp add: both_dirty_def new_agent_def new_object_def trivial_defs)

subsection \<open>The spatial environment: registration, turning, moving, perceiving\<close>

lemmas grid_defs = grid_start_def facing_wall_def new_xy_environment_def new_agent_def
  new_object_def

lemma facing_wall_registered:
  "and_then (xy_add_object 0 0 1 (Some (0, 1)) grid_start) (\<lambda>e1.
     and_then (xy_add_object 0 0 2 (Some (1, 1)) e1) (\<lambda>e2.
       xy_add_object 0 0 0 (Some (1, 1)) e2))
   = Inr facing_wall"
  by (auto simp add: and_then_def xy_add_object_def env_add_object_def update_entity_def
      Let_def isinstance_def grid_defs fun_eq_iff)

text \<open>\<^verbatim>\<open>Environment.add_object\<close> itself registers an object once, and an agent once more
  in \<^verbatim>\<open>agents\<close>.\<close>

lemma env_add_object_registers_once:
  "env_add_object dl obj (Some l) e = Inr e' \<Longrightarrow>
     objects e' = objects e @ [obj]
     \<and> agents e' = agents e @ (if isinstance (klass (heap e obj)) Agent then [obj] else [])
     \<and> location (heap e' obj) = Some l"
  by (auto simp: env_add_object_def update_entity_def Let_def)

text \<open>
  C4, the code at the failing input. \<^verbatim>\<open>XYEnvironment.add_object\<close> calls
  \<^verbatim>\<open>Environment.add_object\<close>, which appends the object to \<^verbatim>\<open>objects\<close>, and then appends it
  again: after one registration of a wall on a new grid, \<^verbatim>\<open>objects\<close> holds the wall
  twice, and after the registration of an agent the agents are not the agents among the
  objects.
\<close>

theorem xy_add_object_appends_twice:
  "map_sum id objects (xy_add_object 0 0 1 (Some (0, 1)) grid_start) = Inr [1, 1]
   \<and> map_sum id objects (xy_add_object 0 0 0 (Some (1, 1)) grid_start) = Inr [0, 0]
   \<and> map_sum id agents (xy_add_object 0 0 0 (Some (1, 1)) grid_start) = Inr [0]"
  by (simp add: xy_add_object_def env_add_object_def update_entity_def Let_def isinstance_def
      grid_defs)

lemma xy_add_object_objects:
  "xy_add_object d1 d2 obj (Some l) e = Inr e' \<Longrightarrow> objects e' = objects e @ [obj, obj]"
  by (auto simp: xy_add_object_def env_add_object_def update_entity_def Let_def
      split: sum.splits)

text \<open>A call of \<^verbatim>\<open>turn_heading\<close> with two arguments raises, whatever the arguments.\<close>

lemma turn_heading_two_arguments: "turn_heading [h, inc] = Inl TypeError"
  by (simp add: turn_heading_def bind_args_def)

lemma turn_raises:
  "heading (heap e agent) = Some h \<Longrightarrow>
     xy_execute_action e agent (Some ''TurnLeft'') = Inl TypeError
     \<and> xy_execute_action e agent (Some ''TurnRight'') = Inl TypeError"
  by (simp add: xy_execute_action_def turn_def turn_heading_two_arguments)

text \<open>
  Called with a first argument for \<^verbatim>\<open>self\<close>, \<^verbatim>\<open>turn_heading\<close> does rotate in the cycle
  East, North, West, South for \<^verbatim>\<open>inc = +1\<close>, backwards for \<^verbatim>\<open>inc = -1\<close>, and four turns
  come back to the heading.
\<close>

lemma turn_heading_rotates:
  "turn_heading [x, of_loc (1, 0), PInt 1] = Inr (of_loc (0, 1))
   \<and> turn_heading [x, of_loc (0, 1), PInt 1] = Inr (of_loc (- 1, 0))
   \<and> turn_heading [x, of_loc (- 1, 0), PInt 1] = Inr (of_loc (0, - 1))
   \<and> turn_heading [x, of_loc (0, - 1), PInt 1] = Inr (of_loc (1, 0))
   \<and> turn_heading [x, of_loc (1, 0), PInt (- 1)] = Inr (of_loc (0, - 1))
   \<and> turn_heading [x, of_loc (0, - 1), PInt (- 1)] = Inr (of_loc (- 1, 0))
   \<and> turn_heading [x, of_loc (- 1, 0), PInt (- 1)] = Inr (of_loc (0, 1))
   \<and> turn_heading [x, of_loc (0, 1), PInt (- 1)] = Inr (of_loc (1, 0))"
  by (simp add: turn_heading_def turn_heading_body_def bind_args_def default_headings_def
      of_loc_def)

text \<open>
  C3, the code at the failing input. The agent's heading is West, one of the four
  canonical vectors; \<^verbatim>\<open>execute_action\<close> with TurnLeft or TurnRight calls
  \<^verbatim>\<open>turn_heading(agent.heading, inc)\<close>, two arguments for a function of three required
  parameters, and raises a \<^verbatim>\<open>TypeError\<close>: no heading is rotated.
\<close>

theorem turn_action_raises_type_error:
  "heading (heap facing_wall 0) = Some (of_loc (- 1, 0))
   \<and> xy_execute_action facing_wall 0 (Some ''TurnLeft'') = Inl TypeError
   \<and> xy_execute_action facing_wall 0 (Some ''TurnRight'') = Inl TypeError"
  by (simp add: xy_execute_action_def turn_def turn_heading_two_arguments facing_wall_def)

text \<open>After any action that \<^verbatim>\<open>XYEnvironment.execute_action\<close> completes, the bump flag
  is false.\<close>

lemma execute_action_resets_bump:
  "xy_execute_action e agent act = Inr e' \<Longrightarrow> bump (heap e' agent) = Some False"
  by (auto simp: xy_execute_action_def update_entity_def split: sum.splits)

text \<open>Forward into a cell without an obstacle moves the agent by its heading and leaves
  the bump flag false.\<close>

lemma forward_into_free_cell:
  assumes "heading (heap e agent) = Some (of_loc h)" "location (heap e agent) = Some l"
    "\<not> find_at e Obstacle (Some (fst h + fst l, snd h + snd l))"
  shows "attr_of location agent (xy_execute_action e agent (Some ''Forward''))
           = Inr (Some (fst h + fst l, snd h + snd l))
     \<and> attr_of bump agent (xy_execute_action e agent (Some ''Forward'')) = Inr (Some False)"
  using assms
  by (simp add: xy_execute_action_def of_loc_def of_loc_opt_def move_to_def update_entity_def
      attr_of_def)

lemma forward_into_obstacle:
  assumes "heading (heap e agent) = Some (of_loc h)" "location (heap e agent) = Some l"
    "find_at e Obstacle (Some (fst h + fst l, snd h + snd l))"
  shows "attr_of location agent (xy_execute_action e agent (Some ''Forward'')) = Inr (Some l)
     \<and> attr_of bump agent (xy_execute_action e agent (Some ''Forward'')) = Inr (Some False)"
  using assms
  by (simp add: xy_execute_action_def of_loc_def of_loc_opt_def move_to_def update_entity_def
      attr_of_def)

text \<open>
  C2, the code at the failing input. The agent stands at (1, 1) and faces the wall at
  (0, 1). \<^verbatim>\<open>move_to\<close> finds the obstacle and sets the bump flag, and the location stays;
  but \<^verbatim>\<open>execute_action\<close> ends with \<^verbatim>\<open>agent.bump = False\<close> for every action, so that after
  Forward into the wall the flag is false.
\<close>

theorem forward_into_wall_leaves_bump_false:
  "find_at facing_wall Obstacle (Some (0, 1))
   \<and> bump (heap (move_to facing_wall 0 (0, 1)) 0) = Some True
   \<and> attr_of location 0 (xy_execute_action facing_wall 0 (Some ''Forward'')) = Inr (Some (1, 1))
   \<and> attr_of bump 0 (xy_execute_action facing_wall 0 (Some ''Forward'')) = Inr (Some False)"
  by (simp add: xy_execute_action_def of_loc_def of_loc_opt_def move_to_def find_at_def
      some_def objects_at_def update_entity_def isinstance_def attr_of_def grid_defs)

text \<open>\<^verbatim>\<open>random.choice\<close> of an integer raises, so the default location of a grid does for
  every width, height and draw.\<close>

lemma xy_default_location_raises: "xy_default_location d1 d2 e obj = Inl TypeError"
  by (simp add: xy_default_location_def random_choice_def)

text \<open>
  C8, the code at the failing input. On the grid of width 10 and height 10,
  \<^verbatim>\<open>default_location\<close> calls \<^verbatim>\<open>random.choice(10)\<close> and raises a \<^verbatim>\<open>TypeError\<close>: it returns
  no coordinate; and \<^verbatim>\<open>add_object\<close> with the location \<^verbatim>\<open>None\<close>, which asks for the
  default, raises with it.
\<close>

theorem default_location_raises_type_error:
  "xy_default_location 3 7 (new_xy_environment 10 10) 0 = Inl TypeError
   \<and> xy_add_object 3 7 0 None grid_start = Inl TypeError"
  by (simp add: xy_default_location_raises xy_add_object_def env_add_object_def)

lemma xy_percept_raises: "xy_percept e agent = Inl TypeError"
  by (simp add: xy_percept_def objects_near_def bind_args_def)

lemma not_done_has_agent: "\<not> is_done e \<Longrightarrow> \<exists>a rest. agents e = a # rest"
  by (cases "agents e") (simp_all add: is_done_def)

text \<open>
  C10, as the code has it. The default percept of the spatial environment raises a
  \<^verbatim>\<open>TypeError\<close> for every agent and environment: \<^verbatim>\<open>objects_near\<close> is called with one
  argument where it requires two. So every step of a spatial environment that keeps this
  percept and has a live agent raises; a step of an environment that is done asks for no
  percept and returns the state as it is.
\<close>

theorem default_percept_raises:
  "xy_percept e agent = Inl TypeError
   \<and> (\<not> is_done e \<longrightarrow> step xy_methods (e, progs) = Inl TypeError)
   \<and> (is_done e \<longrightarrow> step xy_methods (e, progs) = Inr (e, progs))"
proof (intro conjI impI)
  show "xy_percept e agent = Inl TypeError" by (rule xy_percept_raises)
  show "step xy_methods (e, progs) = Inr (e, progs)" if "is_done e"
    using that by (simp add: step_def)
  assume nd: "\<not> is_done e"
  then obtain a rest where a: "agents e = a # rest" using not_done_has_agent by blast
  have "collect_actions xy_methods (e, progs) (a # rest) = Inl TypeError"
    by (simp add: xy_methods_def xy_percept_raises)
  with nd a show "step xy_methods (e, progs) = Inl TypeError" by (simp add: step_def)
qed

text \<open>C10, witness: the agent on the grid with the wall is alive, and a step of that
  grid with the default percept raises.\<close>

theorem default_percept_raises_witness:
  "\<not> is_done facing_wall
   \<and> xy_percept facing_wall 0 = Inl TypeError
   \<and> step xy_methods (facing_wall, idle_programs) = Inl TypeError"
proof -
  have nd: "\<not> is_done facing_wall"
    by (simp add: is_done_def is_alive_def grid_defs)
  with default_percept_raises[of facing_wall 0 idle_programs] show ?thesis by blast
qed

text \<open>
  C10, counterexample to the claim as stated: a step of a new grid, which has no agent,
  with the default percept does not fail; it returns the grid.
\<close>

theorem step_without_agents_returns:
  "step xy_methods (new_xy_environment 10 10, idle_programs)
     = Inr (new_xy_environment 10 10, idle_programs)"
  by (simp add: step_def is_done_def new_xy_environment_def)

subsection \<open>Suck in the grid vacuum environment\<close>

lemma find_at_update_entity:
  assumes "\<And>x. location (f x) = location x \<and> klass (f x) = klass x"
  shows "objects_at (update_entity a f e) l = objects_at e l"
    and "find_at (update_entity a f e) k l = find_at e k l"
proof -
  have l: "\<And>x. location (heap (update_entity a f e) x) = location (heap e x)"
    using assms by (simp add: update_entity_def)
  have k: "\<And>x. klass (heap (update_entity a f e) x) = klass (heap e x)"
    using assms by (simp add: update_entity_def)
  have o: "objects (update_entity a f e) = objects e" by (simp add: update_entity_def)
  show "objects_at (update_entity a f e) l = objects_at e l"
    by (simp add: objects_at_def l o)
  then show "find_at (update_entity a f e) k l = find_at e k l"
    by (simp add: find_at_def k)
qed

lemma suck_once:
  assumes "performance (heap e a) = Some p" "find_at e Dirt (location (heap e a))"
  shows "vacuum_execute_action e a (Some ''Suck'') =
     Inr (update_entity a (\<lambda>x. x\<lparr>performance := Some (p + 99), bump := Some False\<rparr>) e)"
  using assms
  by (simp add: vacuum_execute_action_def add_performance_def xy_execute_action_def
      update_entity_def add.commute)

lemma percept_after_suck:
  assumes "find_at e Dirt (location (heap e a))"
  shows "vacuum_percept (update_entity a (\<lambda>x. x\<lparr>performance := q, bump := Some False\<rparr>) e) a
           = Inr (''Dirty'', ''None'')"
proof -
  let ?e1 = "update_entity a (\<lambda>x. x\<lparr>performance := q, bump := Some False\<rparr>) e"
  have "location (heap ?e1 a) = location (heap e a)" "bump (heap ?e1 a) = Some False"
    by (simp_all add: update_entity_def)
  moreover have "find_at ?e1 Dirt (location (heap e a))"
    using assms by (simp add: find_at_update_entity)
  ultimately show ?thesis by (simp add: vacuum_percept_def)
qed

lemma step_suck:
  assumes "agents e = [a]" "alive (heap e a) = Some True" "bump (heap e a) = Some b"
    "performance (heap e a) = Some p" "find_at e Dirt (location (heap e a))"
    "progs a = always (Some ''Suck'')"
  shows "step vacuum_methods (e, progs) =
     Inr (update_entity a (\<lambda>x. x\<lparr>performance := Some (p + 99), bump := Some False\<rparr>) e, progs)"
proof -
  have nd: "\<not> is_done e" using assms by (simp add: is_done_def is_alive_def)
  have pc: "vacuum_percept e a = Inr (''Dirty'', if b then ''Bump'' else ''None'')"
    using assms by (simp add: vacuum_percept_def)
  have pr: "progs(a := always (Some ''Suck'')) = progs" using assms(6) by (auto simp: fun_eq_iff)
  have ca: "collect_actions vacuum_methods (e, progs) [a] = Inr ([Some ''Suck''], (e, progs))"
    using pc assms(6) pr by (simp add: vacuum_methods_def)
  show ?thesis using nd ca assms(1) suck_once[OF assms(4,5)]
    by (simp add: step_def) (simp add: vacuum_methods_def)
qed

lemma run_suck:
  assumes "agents e = [a]" "alive (heap e a) = Some True" "bump (heap e a) = Some b"
    "performance (heap e a) = Some p" "find_at e Dirt (location (heap e a))"
    "progs a = always (Some ''Suck'')"
  shows "run_loop vacuum_methods (Suc n) (e, progs) =
     Inr ((update_entity a
             (\<lambda>x. x\<lparr>performance := Some (p + 99 * (1 + int n)), bump := Some False\<rparr>) e,
           progs), Suc n)"
  using assms
proof (induction n arbitrary: e p b)
  case 0
  have nd: "\<not> is_done e" using 0 by (simp add: is_done_def is_alive_def)
  show ?case using nd step_suck[of e a b p progs] 0 by simp
next
  case (Suc n)
  let ?e1 = "update_entity a (\<lambda>x. x\<lparr>performance := Some (p + 99), bump := Some False\<rparr>) e"
  have nd: "\<not> is_done e" using Suc.prems by (simp add: is_done_def is_alive_def)
  have a1: "agents ?e1 = [a]" "alive (heap ?e1 a) = Some True" "bump (heap ?e1 a) = Some False"
    "performance (heap ?e1 a) = Some (p + 99)"
    using Suc.prems by (simp_all add: update_entity_def)
  have d1: "find_at ?e1 Dirt (location (heap ?e1 a))"
    using Suc.prems(5) by (simp add: find_at_update_entity) (simp add: update_entity_def)
  have ih: "run_loop vacuum_methods (Suc n) (?e1, progs) =
     Inr ((update_entity a
             (\<lambda>x. x\<lparr>performance := Some (p + 99 + 99 * (1 + int n)), bump := Some False\<rparr>) ?e1,
           progs), Suc n)"
    by (rule Suc.IH[OF a1 d1 Suc.prems(6)])
  have eq: "update_entity a
             (\<lambda>x. x\<lparr>performance := Some (p + 99 + 99 * (1 + int n)), bump := Some False\<rparr>) ?e1
     = update_entity a
         (\<lambda>x. x\<lparr>performance := Some (p + 99 * (1 + int (Suc n))), bump := Some False\<rparr>) e"
    by (simp add: update_entity_def algebra_simps)
  have "run_loop vacuum_methods (Suc (Suc n)) (e, progs) =
     (case run_loop vacuum_methods (Suc n) (?e1, progs) of
        Inl err \<Rightarrow> Inl err
      | Inr (s'', ticks) \<Rightarrow> Inr (s'', Suc ticks))"
    using nd step_suck[of e a b p progs] Suc.prems by (subst run_loop.simps) simp
  then show ?case by (simp only: ih eq) simp
qed

lemma agent_is_not_dirt: "isinstance k Agent \<Longrightarrow> \<not> isinstance k Dirt"
  by (cases k) (simp_all add: isinstance_def)

lemma turn_never_returns: "turn e b inc \<noteq> Inr e'"
  by (simp add: turn_def turn_heading_def bind_args_def split: option.splits)

lemma same_but_refl: "same_but b e e"
  by (simp add: same_but_def)

lemma same_but_update:
  "(\<And>x. klass (f x) = klass x \<and> alive (f x) = alive x \<and> performance (f x) = performance x)
     \<Longrightarrow> same_but b e (update_entity b f e)"
  by (simp add: same_but_def update_entity_def)

lemma same_but_move_to: "same_but b e (move_to e b l)"
  by (simp add: move_to_def same_but_update)

lemma xy_branch_frame:
  assumes "xy_execute_action e b act = Inr e'"
  shows "\<exists>e1. same_but b e e1 \<and> e' = update_entity b (\<lambda>x. x\<lparr>bump := Some False\<rparr>) e1"
proof -
  from assms obtain e1 where e': "e' = update_entity b (\<lambda>x. x\<lparr>bump := Some False\<rparr>) e1"
    and br: "(if act = Some ''TurnRight'' then turn e b (- 1)
         else if act = Some ''TurnLeft'' then turn e b 1
         else if act = Some ''Forward'' then
           (case heading (heap e b) of
              None \<Rightarrow> Inl AttributeError
            | Some h \<Rightarrow>
                (case vector_add h (of_loc_opt (location (heap e b))) of
                   Inl err \<Rightarrow> Inl err
                 | Inr destination \<Rightarrow> Inr (move_to e b destination)))
         else if act = Some ''Grab'' then
           (case grabable (heap e) b (objects_at e (location (heap e b))) of
              Inl err \<Rightarrow> Inl err
            | Inr objs \<Rightarrow>
                (if objs \<noteq> [] then
                   (case holding (heap e b) of
                      None \<Rightarrow> Inl AttributeError
                    | Some hs \<Rightarrow>
                        Inr (update_entity b (\<lambda>x. x\<lparr>holding := Some (hs @ [hd objs])\<rparr>) e))
                 else Inr e))
         else if act = Some ''Release'' then
           (case holding (heap e b) of
              None \<Rightarrow> Inl AttributeError
            | Some hs \<Rightarrow>
                (if hs \<noteq> [] then
                   Inr (update_entity b (\<lambda>x. x\<lparr>holding := Some (butlast hs)\<rparr>) e)
                 else Inr e))
         else Inr e) = Inr e1"
    unfolding xy_execute_action_def by (auto split: sum.splits)
  have "same_but b e e1"
    using br
    by (auto simp: turn_never_returns same_but_refl same_but_move_to same_but_update
        split: if_splits option.splits sum.splits)
  with e' show ?thesis by blast
qed

lemma xy_execute_action_frame:
  "xy_execute_action e b act = Inr e' \<Longrightarrow>
     objects e' = objects e \<and> agents e' = agents e
     \<and> (\<forall>x. x \<noteq> b \<longrightarrow> heap e' x = heap e x)
     \<and> klass (heap e' b) = klass (heap e b) \<and> alive (heap e' b) = alive (heap e b)
     \<and> performance (heap e' b) = performance (heap e b)
     \<and> bump (heap e' b) = Some False"
  by (drule xy_branch_frame) (auto simp: same_but_def update_entity_def)

lemma add_performance_frame:
  "add_performance b n e = Inr e' \<Longrightarrow>
     objects e' = objects e \<and> agents e' = agents e
     \<and> (\<forall>x. x \<noteq> b \<longrightarrow> heap e' x = heap e x)
     \<and> klass (heap e' b) = klass (heap e b) \<and> alive (heap e' b) = alive (heap e b)
     \<and> location (heap e' b) = location (heap e b)"
  by (auto simp: add_performance_def update_entity_def split: option.splits)

lemma vacuum_execute_action_frame:
  assumes "vacuum_execute_action e b act = Inr e'"
  shows "objects e' = objects e \<and> agents e' = agents e
     \<and> (\<forall>x. x \<noteq> b \<longrightarrow> heap e' x = heap e x)
     \<and> klass (heap e' b) = klass (heap e b) \<and> alive (heap e' b) = alive (heap e b)
     \<and> bump (heap e' b) = Some False"
proof -
  from assms obtain e1 e2 where
    1: "e1 = e \<or> add_performance b 100 e = Inr e1"
    and 2: "add_performance b (- 1) e1 = Inr e2"
    and 3: "xy_execute_action e2 b act = Inr e'"
    by (auto simp: vacuum_execute_action_def split: sum.splits if_splits)
  from 1 have f1: "objects e1 = objects e \<and> agents e1 = agents e
     \<and> (\<forall>x. x \<noteq> b \<longrightarrow> heap e1 x = heap e x)
     \<and> klass (heap e1 b) = klass (heap e b) \<and> alive (heap e1 b) = alive (heap e b)"
    using add_performance_frame[of b 100 e e1] by auto
  from add_performance_frame[OF 2] xy_execute_action_frame[OF 3] f1
  show ?thesis by simp
qed

lemma keep_bump: "bump x = Some False \<Longrightarrow> x\<lparr>bump := Some False\<rparr> = x"
  by (cases x) simp

lemma suck_only_performance:
  assumes "performance (heap e a) = Some p" "bump (heap e a) = Some False"
    "find_at e Dirt (location (heap e a))"
  shows "vacuum_execute_action e a (Some ''Suck'') =
     Inr (update_entity a (\<lambda>x. x\<lparr>performance := Some (p + 99)\<rparr>) e)"
proof -
  have "(heap e a)\<lparr>performance := Some (p + 99), bump := Some False\<rparr>
      = (heap e a)\<lparr>performance := Some (p + 99)\<rparr>"
    using assms(2) by (cases "heap e a") simp
  then have "update_entity a (\<lambda>x. x\<lparr>performance := Some (p + 99), bump := Some False\<rparr>) e
      = update_entity a (\<lambda>x. x\<lparr>performance := Some (p + 99)\<rparr>) e"
    by (simp add: update_entity_def)
  with suck_once[OF assms(1,3)] show ?thesis by simp
qed

lemma collect_actions_always:
  "collect_actions m (e, progs) as = Inr (acts, s') \<Longrightarrow> progs a = always x \<Longrightarrow>
     fst s' = e \<and> snd s' a = always x \<and> length acts = length as
     \<and> (\<forall>i < length as. as ! i = a \<longrightarrow> acts ! i = x)"
proof (induction as arbitrary: progs acts)
  case Nil
  then show ?case by auto
next
  case (Cons b as)
  from Cons.prems(1) obtain p where p: "percept m e b = Inr p"
    by (auto split: sum.splits)
  obtain act prog' where c: "call (progs b) p = (act, prog')" by (cases "call (progs b) p")
  from Cons.prems(1) p c obtain acts' where
    r: "collect_actions m (e, progs(b := prog')) as = Inr (acts', s')" and a: "acts = act # acts'"
    by (auto split: sum.splits)
  have pa: "(progs(b := prog')) a = always x"
    using Cons.prems(2) c by (cases "b = a") auto
  have hd: "b = a \<longrightarrow> act = x" using Cons.prems(2) c by auto
  from Cons.IH[OF r pa] a hd show ?case
    by (auto simp: nth_Cons split: nat.splits)
qed

lemma find_at_iff:
  "find_at e k l \<longleftrightarrow> (\<exists>d \<in> set (objects e). location (heap e d) = l \<and> isinstance (klass (heap e d)) k)"
  by (auto simp: find_at_def some_def objects_at_def list_ex_iff)

lemma on_dirt_other:
  assumes v: "vacuum_execute_action e b act = Inr e'" and o: "on_dirt e a p" and ba: "b \<noteq> a"
    and b: "b \<in> set (agents e)"
  shows "on_dirt e' a p \<and> location (heap e' a) = location (heap e a)"
proof -
  note f = vacuum_execute_action_frame[OF v]
  from o obtain d where d: "d \<in> set (objects e)" "location (heap e d) = location (heap e a)"
    "isinstance (klass (heap e d)) Dirt"
    by (auto simp: on_dirt_def find_at_iff)
  from o b have "isinstance (klass (heap e b)) Agent" by (simp add: on_dirt_def)
  with d(3) have "d \<noteq> b" using agent_is_not_dirt by blast
  with f d ba have "d \<in> set (objects e')" "location (heap e' d) = location (heap e' a)"
    "isinstance (klass (heap e' d)) Dirt"
    by simp_all
  then have fa: "find_at e' Dirt (location (heap e' a))" by (auto simp: find_at_iff)
  have kl: "\<forall>x \<in> set (agents e'). isinstance (klass (heap e' x)) Agent"
  proof
    fix x assume "x \<in> set (agents e')"
    with f o have "isinstance (klass (heap e x)) Agent" by (simp add: on_dirt_def)
    with f show "isinstance (klass (heap e' x)) Agent" by (cases "x = b") simp_all
  qed
  from f ba o fa kl show ?thesis by (simp add: on_dirt_def)
qed

lemma on_dirt_suck:
  assumes v: "vacuum_execute_action e a (Some ''Suck'') = Inr e'" and o: "on_dirt e a p"
  shows "on_dirt e' a (p + 99) \<and> location (heap e' a) = location (heap e a)"
proof -
  from o have h: "performance (heap e a) = Some p" "bump (heap e a) = Some False"
    "find_at e Dirt (location (heap e a))"
    by (simp_all add: on_dirt_def)
  from suck_only_performance[OF h] v
  have e': "e' = update_entity a (\<lambda>x. x\<lparr>performance := Some (p + 99)\<rparr>) e" by simp
  have fa: "find_at e' Dirt (location (heap e a))"
    unfolding e' using h(3) by (simp add: find_at_update_entity)
  have l: "location (heap e' a) = location (heap e a)" unfolding e' by (simp add: update_entity_def)
  have "\<forall>b \<in> set (agents e'). isinstance (klass (heap e' b)) Agent"
    using o unfolding e' by (simp add: on_dirt_def update_entity_def)
  moreover have "performance (heap e' a) = Some (p + 99)" "bump (heap e' a) = Some False"
    using h(2) unfolding e' by (simp_all add: update_entity_def)
  ultimately show ?thesis using fa l by (simp add: on_dirt_def)
qed

lemma execute_actions_on_dirt:
  "execute_actions vacuum_methods e pairs = Inr e' \<Longrightarrow> on_dirt e a p \<Longrightarrow>
   \<forall>(b, act) \<in> set pairs. b \<in> set (agents e) \<and> (b = a \<longrightarrow> act = Some ''Suck'') \<Longrightarrow>
     on_dirt e' a (p + 99 * int (count_list (map fst pairs) a))
     \<and> location (heap e' a) = location (heap e a)
     \<and> agents e' = agents e \<and> (\<forall>x. alive (heap e' x) = alive (heap e x))"
proof (induction pairs arbitrary: e p)
  case Nil
  then show ?case by simp
next
  case (Cons pr pairs)
  obtain b act where pr: "pr = (b, act)" by (cases pr)
  from Cons.prems(1) pr obtain e1 where
    v: "vacuum_execute_action e b act = Inr e1" and r: "execute_actions vacuum_methods e1 pairs = Inr e'"
    by (auto simp: vacuum_methods_def split: sum.splits)
  note f = vacuum_execute_action_frame[OF v]
  from Cons.prems(3) pr have b: "b \<in> set (agents e)" and ba: "b = a \<longrightarrow> act = Some ''Suck''"
    by auto
  have al: "\<forall>x. alive (heap e1 x) = alive (heap e x)"
    using f by (metis)
  have rest: "\<forall>(b, act) \<in> set pairs. b \<in> set (agents e1) \<and> (b = a \<longrightarrow> act = Some ''Suck'')"
    using Cons.prems(3) f by auto
  show ?case
  proof (cases "b = a")
    case True
    with v ba have v': "vacuum_execute_action e a (Some ''Suck'') = Inr e1" by simp
    from on_dirt_suck[OF v' Cons.prems(2)]
    have o1: "on_dirt e1 a (p + 99)" and l1: "location (heap e1 a) = location (heap e a)" by simp_all
    from Cons.IH[OF r o1 rest] l1 f al pr True show ?thesis
      by (simp add: algebra_simps)
  next
    case False
    from on_dirt_other[OF v Cons.prems(2) False b]
    have o1: "on_dirt e1 a p" and l1: "location (heap e1 a) = location (heap e a)" by simp_all
    from Cons.IH[OF r o1 rest] l1 f al pr False show ?thesis
      by simp
  qed
qed

lemma step_on_dirt:
  assumes s: "step vacuum_methods (e, progs) = Inr (e', progs')" and nd: "\<not> is_done e"
    and o: "on_dirt e a p" and pa: "progs a = always (Some ''Suck'')"
  shows "on_dirt e' a (p + 99 * int (count_list (agents e) a))
     \<and> location (heap e' a) = location (heap e a)
     \<and> agents e' = agents e \<and> (\<forall>x. alive (heap e' x) = alive (heap e x))
     \<and> progs' a = always (Some ''Suck'')"
proof -
  from s nd obtain acts s1 e2 where
    c: "collect_actions vacuum_methods (e, progs) (agents e) = Inr (acts, s1)"
    and x: "execute_actions vacuum_methods (fst s1) (zip (agents (fst s1)) acts) = Inr e2"
    and r: "e' = exogenous_change vacuum_methods e2" "progs' = snd s1"
    by (auto simp: step_def split: sum.splits)
  note ca = collect_actions_always[OF c pa]
  from ca have s1: "fst s1 = e" and len: "length acts = length (agents e)" by simp_all
  have e2: "e' = e2" using r by (simp add: vacuum_methods_def)
  have pairs: "\<forall>(b, act) \<in> set (zip (agents e) acts). b \<in> set (agents e) \<and> (b = a \<longrightarrow> act = Some ''Suck'')"
  proof (clarify)
    fix b act assume "(b, act) \<in> set (zip (agents e) acts)"
    then obtain i where i: "i < length (agents e)" "agents e ! i = b" "acts ! i = act"
      using len by (auto simp: in_set_zip)
    with ca show "b \<in> set (agents e) \<and> (b = a \<longrightarrow> act = Some ''Suck'')" by auto
  qed
  have m: "map fst (zip (agents e) acts) = agents e" using len by simp
  from execute_actions_on_dirt[OF x[unfolded s1] o pairs] m e2 ca r
  show ?thesis by simp
qed

lemma run_loop_on_dirt:
  "run_loop vacuum_methods n (e, progs) = Inr ((e', progs'), k) \<Longrightarrow>
   on_dirt e a p \<Longrightarrow> progs a = always (Some ''Suck'') \<Longrightarrow>
     on_dirt e' a (p + 99 * int (k * count_list (agents e) a))
     \<and> location (heap e' a) = location (heap e a)
     \<and> agents e' = agents e \<and> (\<forall>x. alive (heap e' x) = alive (heap e x))
     \<and> progs' a = always (Some ''Suck'')"
proof (induction n arbitrary: e progs p k)
  case 0
  then show ?case by simp
next
  case (Suc n)
  show ?case
  proof (cases "is_done e")
    case True
    with Suc.prems show ?thesis by simp
  next
    case False
    with Suc.prems(1) obtain e1 progs1 k1 where
      st: "step vacuum_methods (e, progs) = Inr (e1, progs1)"
      and r: "run_loop vacuum_methods n (e1, progs1) = Inr ((e', progs'), k1)" and k: "k = Suc k1"
      by (auto split: sum.splits)
    from step_on_dirt[OF st False Suc.prems(2,3)]
    have o1: "on_dirt e1 a (p + 99 * int (count_list (agents e) a))"
      and l1: "location (heap e1 a) = location (heap e a)"
      and a1: "agents e1 = agents e" and al1: "\<forall>x. alive (heap e1 x) = alive (heap e x)"
      and p1: "progs1 a = always (Some ''Suck'')"
      by simp_all
    from Suc.IH[OF r o1 p1] l1 a1 al1 k show ?thesis
      by (simp add: algebra_simps)
  qed
qed

lemma two_on_grid_registered:
  "xy_add_object 0 0 3 (Some (2, 2))
     (facing_wall\<lparr>heap := (heap facing_wall)(3 := new_agent Agent)\<rparr>) = Inr two_on_grid"
  by (auto simp add: xy_add_object_def env_add_object_def update_entity_def
      Let_def isinstance_def grid_defs two_on_grid_def fun_eq_iff)

lemma run_loop_all_ticks:
  assumes "run_loop m n (e, progs) = Inr ((e', progs'), k)"
    "a \<in> set (agents e')" "alive (heap e' a) = Some True"
  shows "k = n"
proof -
  from run_loop_ticks[OF assms(1)] have "k \<le> n" "k < n \<longrightarrow> is_done e'" by simp_all
  moreover have "\<not> is_done e'" using assms(2,3) by (auto simp: is_done_iff)
  ultimately show ?thesis by auto
qed

lemma new_agent_bump: "bump (new_agent k) = Some False"
  by (simp add: new_agent_def new_object_def)

lemma xy_add_object_keeps_bump:
  "xy_add_object d1 d2 obj l e = Inr e' \<Longrightarrow> bump (heap e' x) = bump (heap e x)"
  by (auto simp: xy_add_object_def env_add_object_def update_entity_def Let_def
      split: sum.splits option.splits pyval.splits if_splits)

lemma xy_add_object_agents_are_agents:
  "xy_add_object d1 d2 obj l e = Inr e' \<Longrightarrow>
   \<forall>b \<in> set (agents e). isinstance (klass (heap e b)) Agent \<Longrightarrow>
   \<forall>b \<in> set (agents e'). isinstance (klass (heap e' b)) Agent"
  by (auto simp: xy_add_object_def env_add_object_def update_entity_def Let_def
      split: sum.splits option.splits pyval.splits if_splits)

lemma collect_actions_env: "collect_actions m (e, progs) as = Inr (acts, s') \<Longrightarrow> fst s' = e"
proof (induction as arbitrary: progs acts)
  case Nil
  then show ?case by auto
next
  case (Cons b as)
  from Cons.prems obtain p where p: "percept m e b = Inr p"
    by (auto split: sum.splits)
  obtain act prog' where c: "call (progs b) p = (act, prog')" by (cases "call (progs b) p")
  from Cons.prems p c obtain acts' where
    "collect_actions m (e, progs(b := prog')) as = Inr (acts', s')"
    by (auto split: sum.splits)
  then show ?case by (rule Cons.IH)
qed

lemma execute_actions_keep_bump_false:
  "execute_actions vacuum_methods e pairs = Inr e' \<Longrightarrow> bump (heap e x) = Some False \<Longrightarrow>
     bump (heap e' x) = Some False"
proof (induction pairs arbitrary: e)
  case Nil
  then show ?case by simp
next
  case (Cons pr pairs)
  obtain b act where pr: "pr = (b, act)" by (cases pr)
  from Cons.prems(1) pr obtain e1 where
    v: "vacuum_execute_action e b act = Inr e1" and r: "execute_actions vacuum_methods e1 pairs = Inr e'"
    by (auto simp: vacuum_methods_def split: sum.splits)
  from vacuum_execute_action_frame[OF v] Cons.prems(2) have "bump (heap e1 x) = Some False"
    by (cases "x = b") simp_all
  from Cons.IH[OF r this] show ?case .
qed

lemma step_keeps_bump_false:
  assumes "step vacuum_methods (e, progs) = Inr (e', progs')" "bump (heap e x) = Some False"
  shows "bump (heap e' x) = Some False"
proof (cases "is_done e")
  case True
  with assms show ?thesis by (simp add: step_def)
next
  case False
  with assms(1) obtain acts s1 e2 where
    c: "collect_actions vacuum_methods (e, progs) (agents e) = Inr (acts, s1)"
    and x: "execute_actions vacuum_methods (fst s1) (zip (agents (fst s1)) acts) = Inr e2"
    and r: "e' = exogenous_change vacuum_methods e2"
    by (auto simp: step_def split: sum.splits)
  have "fst s1 = e" using c by (rule collect_actions_env)
  with execute_actions_keep_bump_false[OF x] assms(2) r show ?thesis
    by (simp add: vacuum_methods_def)
qed

lemma run_keeps_bump_false:
  "run_loop vacuum_methods n (e, progs) = Inr ((e', progs'), k) \<Longrightarrow> bump (heap e x) = Some False
     \<Longrightarrow> bump (heap e' x) = Some False"
proof (induction n arbitrary: e progs k)
  case 0
  then show ?case by simp
next
  case (Suc n)
  show ?case
  proof (cases "is_done e")
    case True
    with Suc.prems show ?thesis by simp
  next
    case False
    with Suc.prems(1) obtain e1 progs1 k1 where
      st: "step vacuum_methods (e, progs) = Inr (e1, progs1)"
      and r: "run_loop vacuum_methods n (e1, progs1) = Inr ((e', progs'), k1)"
      by (auto split: sum.splits)
    from Suc.IH[OF r step_keeps_bump_false[OF st Suc.prems(2)]] show ?thesis .
  qed
qed

lemma run2: "run m 2 s = run_loop m (Suc (Suc 0)) s"
  by (simp add: run_def eval_nat_numeral)

lemma two_run: "\<exists>e' progs' k. run vacuum_methods 2 (two_on_grid, grid_programs) = Inr ((e', progs'), k)"
  by (simp add: run2 step_def is_done_def is_alive_def two_on_grid_def grid_programs_def suck_programs_def
      grid_defs vacuum_methods_def vacuum_percept_def vacuum_execute_action_def add_performance_def
      xy_execute_action_def find_at_def some_def objects_at_def isinstance_def update_entity_def)

text \<open>
  C9. In the grid vacuum environment, in a state where the agent's bump flag is false (as
  it is after \<^verbatim>\<open>Agent.__init__\<close>, after registration and after every completed action
  and tick, by the lemmas above), Suck by an agent that stands on dirt adds 100 - 1 = 99 to
  the agent's performance and changes nothing else: the objects at every location, the
  dirt among them, are as before, and the agent's percept afterwards is Dirty. In an
  environment with any number of registered agents, each an \<^verbatim>\<open>Agent\<close>, whatever the
  programs of the others, an agent on dirt whose program answers every percept with Suck
  has, after a run that returns having made \<open>k\<close> ticks, gained 99 for each tick and each
  time it is listed in \<^verbatim>\<open>agents\<close>; it is where it was, the dirt is still there and its
  percept is Dirty; and when the agent is registered and alive the run has made all its
  \<open>steps\<close> ticks. When the agent is the only one, the run does return, for any number of
  steps.
\<close>

theorem suck_changes_only_performance:
  "(performance (heap e a) = Some p \<and> bump (heap e a) = Some False
      \<and> find_at e Dirt (location (heap e a)) \<longrightarrow>
      vacuum_execute_action e a (Some ''Suck'') =
        Inr (update_entity a (\<lambda>x. x\<lparr>performance := Some (p + 99)\<rparr>) e)
      \<and> (\<forall>l. objects_at (update_entity a (\<lambda>x. x\<lparr>performance := Some (p + 99)\<rparr>) e) l
               = objects_at e l)
      \<and> vacuum_percept (update_entity a (\<lambda>x. x\<lparr>performance := Some (p + 99)\<rparr>) e) a
          = Inr (''Dirty'', ''None''))
   \<and> (performance (heap e a) = Some p \<and> bump (heap e a) = Some False
      \<and> find_at e Dirt (location (heap e a))
      \<and> (\<forall>b \<in> set (agents e). isinstance (klass (heap e b)) Agent)
      \<and> progs a = always (Some ''Suck'')
      \<and> run vacuum_methods steps (e, progs) = Inr ((e', progs'), k) \<longrightarrow>
      performance (heap e' a) = Some (p + 99 * int (k * count_list (agents e) a))
      \<and> bump (heap e' a) = Some False \<and> location (heap e' a) = location (heap e a)
      \<and> find_at e' Dirt (location (heap e' a))
      \<and> vacuum_percept e' a = Inr (''Dirty'', ''None'')
      \<and> (a \<in> set (agents e) \<and> alive (heap e a) = Some True \<longrightarrow> k = nat steps))
   \<and> (performance (heap e a) = Some p \<and> bump (heap e a) = Some False
      \<and> find_at e Dirt (location (heap e a))
      \<and> agents e = [a] \<and> alive (heap e a) = Some True \<and> progs a = always (Some ''Suck'') \<longrightarrow>
      run vacuum_methods (1 + int n) (e, progs) =
        Inr ((update_entity a (\<lambda>x. x\<lparr>performance := Some (p + 99 * (1 + int n))\<rparr>) e, progs),
             Suc n))"
proof (intro conjI impI allI)
  assume h: "performance (heap e a) = Some p \<and> bump (heap e a) = Some False
      \<and> find_at e Dirt (location (heap e a))"
  then have p: "performance (heap e a) = Some p" and b: "bump (heap e a) = Some False"
    and d: "find_at e Dirt (location (heap e a))" by simp_all
  let ?e1 = "update_entity a (\<lambda>x. x\<lparr>performance := Some (p + 99)\<rparr>) e"
  show "vacuum_execute_action e a (Some ''Suck'') = Inr ?e1"
    by (rule suck_only_performance[OF p b d])
  show "objects_at ?e1 l = objects_at e l" for l
    by (simp add: find_at_update_entity)
  have "find_at ?e1 Dirt (location (heap e a))" using d by (simp add: find_at_update_entity)
  moreover have "location (heap ?e1 a) = location (heap e a)" "bump (heap ?e1 a) = Some False"
    using b by (simp_all add: update_entity_def)
  ultimately show "vacuum_percept ?e1 a = Inr (''Dirty'', ''None'')"
    by (simp add: vacuum_percept_def)
next
  assume h: "performance (heap e a) = Some p \<and> bump (heap e a) = Some False
      \<and> find_at e Dirt (location (heap e a))
      \<and> (\<forall>b \<in> set (agents e). isinstance (klass (heap e b)) Agent)
      \<and> progs a = always (Some ''Suck'')
      \<and> run vacuum_methods steps (e, progs) = Inr ((e', progs'), k)"
  then have o: "on_dirt e a p" and pa: "progs a = always (Some ''Suck'')"
    and r: "run_loop vacuum_methods (nat steps) (e, progs) = Inr ((e', progs'), k)"
    by (simp_all add: on_dirt_def run_def)
  note t = run_loop_on_dirt[OF r o pa]
  from t have o': "on_dirt e' a (p + 99 * int (k * count_list (agents e) a))" by simp
  from o' show "performance (heap e' a) = Some (p + 99 * int (k * count_list (agents e) a))"
    by (simp add: on_dirt_def)
  from o' show b': "bump (heap e' a) = Some False" by (simp add: on_dirt_def)
  from t show "location (heap e' a) = location (heap e a)" by simp
  from o' show f': "find_at e' Dirt (location (heap e' a))" by (simp add: on_dirt_def)
  from b' f' show "vacuum_percept e' a = Inr (''Dirty'', ''None'')"
    by (simp add: vacuum_percept_def)
  show "k = nat steps" if "a \<in> set (agents e) \<and> alive (heap e a) = Some True"
  proof -
    from t that have "a \<in> set (agents e')" "alive (heap e' a) = Some True" by simp_all
    then show ?thesis by (rule run_loop_all_ticks[OF r])
  qed
next
  assume h: "performance (heap e a) = Some p \<and> bump (heap e a) = Some False
      \<and> find_at e Dirt (location (heap e a))
      \<and> agents e = [a] \<and> alive (heap e a) = Some True \<and> progs a = always (Some ''Suck'')"
  then have b: "bump (heap e a) = Some False" by simp
  have n: "nat (1 + int n) = Suc n" by simp
  have "(heap e a)\<lparr>performance := Some (p + 99 * (1 + int n)), bump := Some False\<rparr>
      = (heap e a)\<lparr>performance := Some (p + 99 * (1 + int n))\<rparr>"
    using b by (cases "heap e a") simp
  then have eq: "update_entity a
        (\<lambda>x. x\<lparr>performance := Some (p + 99 * (1 + int n)), bump := Some False\<rparr>) e
      = update_entity a (\<lambda>x. x\<lparr>performance := Some (p + 99 * (1 + int n))\<rparr>) e"
    by (simp add: update_entity_def)
  show "run vacuum_methods (1 + int n) (e, progs) =
        Inr ((update_entity a (\<lambda>x. x\<lparr>performance := Some (p + 99 * (1 + int n))\<rparr>) e, progs),
             Suc n)"
    unfolding run_def n eq[symmetric]
    using run_suck[of e a False p progs n] h by blast
qed

text \<open>
  C9, witness: the agent on the grid stands on the dirt at (1, 1) with performance 0 and
  no bump. One Suck gives 99 and leaves the bump flag as it is; a run of three ticks of the
  agent alone gives 297 and changes nothing but the performance; with a second agent that
  does nothing, a run of two ticks gives the first agent 198, and its percept is still
  Dirty.
\<close>

theorem suck_changes_only_performance_witness:
  "attr_of performance 0 (vacuum_execute_action facing_wall 0 (Some ''Suck'')) = Inr (Some 99)
   \<and> attr_of bump 0 (vacuum_execute_action facing_wall 0 (Some ''Suck''))
       = Inr (bump (heap facing_wall 0))
   \<and> run vacuum_methods 3 (facing_wall, suck_programs) =
        Inr ((update_entity 0 (\<lambda>x. x\<lparr>performance := Some 297\<rparr>) facing_wall, suck_programs), 3)
   \<and> (\<exists>e' progs'. run vacuum_methods 2 (two_on_grid, grid_programs) = Inr ((e', progs'), 2)
         \<and> performance (heap e' 0) = Some 198
         \<and> vacuum_percept e' 0 = Inr (''Dirty'', ''None''))"
proof -
  have p: "performance (heap facing_wall 0) = Some 0" "bump (heap facing_wall 0) = Some False"
    by (simp_all add: grid_defs)
  have d: "find_at facing_wall Dirt (location (heap facing_wall 0))"
    by (simp add: find_at_def some_def objects_at_def isinstance_def grid_defs)
  have r: "agents facing_wall = [0]" "alive (heap facing_wall 0) = Some True"
    "suck_programs 0 = always (Some ''Suck'')"
    by (simp_all add: grid_defs suck_programs_def)
  note t = suck_changes_only_performance[of facing_wall 0 0 suck_programs _ _ _ _ 2]
  from t p d
  have 1: "vacuum_execute_action facing_wall 0 (Some ''Suck'') =
       Inr (update_entity 0 (\<lambda>x. x\<lparr>performance := Some (0 + 99)\<rparr>) facing_wall)"
    by blast
  from t p d r
  have 3: "run vacuum_methods (1 + int 2) (facing_wall, suck_programs) =
          Inr ((update_entity 0 (\<lambda>x. x\<lparr>performance := Some (0 + 99 * (1 + int 2))\<rparr>) facing_wall,
                suck_programs), Suc 2)"
    by blast
  have 4: "attr_of performance 0 (vacuum_execute_action facing_wall 0 (Some ''Suck''))
      = Inr (Some 99)"
    "attr_of bump 0 (vacuum_execute_action facing_wall 0 (Some ''Suck''))
       = Inr (bump (heap facing_wall 0))"
    unfolding 1 by (simp_all add: attr_of_def update_entity_def)
  from 3 have 5: "run vacuum_methods 3 (facing_wall, suck_programs) =
        Inr ((update_entity 0 (\<lambda>x. x\<lparr>performance := Some 297\<rparr>) facing_wall, suck_programs), 3)"
    by simp
  have q: "performance (heap two_on_grid 0) = Some 0" "bump (heap two_on_grid 0) = Some False"
    "\<forall>b \<in> set (agents two_on_grid). isinstance (klass (heap two_on_grid b)) Agent"
    "grid_programs 0 = always (Some ''Suck'')" "0 \<in> set (agents two_on_grid)"
    "alive (heap two_on_grid 0) = Some True" "count_list (agents two_on_grid) 0 = 1"
    by (simp_all add: two_on_grid_def grid_programs_def suck_programs_def grid_defs isinstance_def)
  have d2: "find_at two_on_grid Dirt (location (heap two_on_grid 0))"
    by (simp add: find_at_def some_def objects_at_def isinstance_def two_on_grid_def grid_defs)
  from two_run obtain e' progs' k
    where run: "run vacuum_methods 2 (two_on_grid, grid_programs) = Inr ((e', progs'), k)"
    by blast
  note t2 = suck_changes_only_performance[of two_on_grid 0 0 grid_programs 2 e' progs' k]
  from t2 q d2 run have k: "k = nat 2" by blast
  from t2 q d2 run
  have "performance (heap e' 0) = Some (0 + 99 * int (k * count_list (agents two_on_grid) 0))"
    and pc: "vacuum_percept e' 0 = Inr (''Dirty'', ''None'')"
    by blast+
  with k q(7) have "performance (heap e' 0) = Some 198" by simp
  with run k pc have "\<exists>e' progs'. run vacuum_methods 2 (two_on_grid, grid_programs) = Inr ((e', progs'), 2)
         \<and> performance (heap e' 0) = Some 198
         \<and> vacuum_percept e' 0 = Inr (''Dirty'', ''None'')"
    by auto
  with 4 5 show ?thesis by blast
qed

subsection \<open>The percepts of a tick\<close>

lemma percepts_of_nth:
  "percepts_of m e as = Inr ps \<Longrightarrow>
     length ps = length as \<and> (\<forall>i < length as. percept m e (as ! i) = Inr (ps ! i))"
proof (induction as arbitrary: ps)
  case Nil
  then show ?case by simp
next
  case (Cons a as)
  from Cons.prems obtain p ps'
    where p: "percept m e a = Inr p" and r: "percepts_of m e as = Inr ps'" and ps: "ps = p # ps'"
    by (auto split: sum.splits)
  from Cons.IH[OF r] p ps show ?case by (auto simp: nth_Cons split: nat.splits)
qed

lemma collect_actions_two_phase:
  "collect_actions m (e, progs) as =
     (case percepts_of m e as of
        Inl err \<Rightarrow> Inl err
      | Inr ps \<Rightarrow>
          (let (acts, progs') = call_programs progs (zip as ps) in Inr (acts, (e, progs'))))"
proof (induction as arbitrary: progs)
  case Nil
  then show ?case by simp
next
  case (Cons a as)
  show ?case
  proof (cases "percept m e a")
    case (Inl err)
    then show ?thesis by simp
  next
    case (Inr p)
    obtain act prog' where c: "call (progs a) p = (act, prog')" by (cases "call (progs a) p")
    have unfold: "collect_actions m (e, progs) (a # as) =
        (case collect_actions m (e, progs(a := prog')) as of
           Inl err \<Rightarrow> Inl err
         | Inr (acts, s'') \<Rightarrow> Inr (act # acts, s''))"
      using Inr c by simp
    show ?thesis
    proof (cases "percepts_of m e as")
      case (Inl err)
      then show ?thesis unfolding unfold Cons.IH using Inr by simp
    next
      case ps: (Inr ps)
      obtain acts progs'
        where cp: "call_programs (progs(a := prog')) (zip as ps) = (acts, progs')"
        by (cases "call_programs (progs(a := prog')) (zip as ps)")
      show ?thesis unfolding unfold Cons.IH using Inr ps c cp by simp
    qed
  qed
qed

lemma step_is_two_phase: "step m s = step_two_phase m s"
proof (cases s)
  case (Pair e progs)
  show ?thesis
  proof (cases "is_done e")
    case True
    then show ?thesis by (simp add: Pair step_def step_two_phase_def)
  next
    case nd: False
    show ?thesis
    proof (cases "percepts_of m e (agents e)")
      case (Inl err)
      then show ?thesis using nd
        by (simp add: Pair step_def step_two_phase_def collect_actions_two_phase)
    next
      case (Inr ps)
      obtain acts progs' where cp: "call_programs progs (zip (agents e) ps) = (acts, progs')"
        by (cases "call_programs progs (zip (agents e) ps)")
      show ?thesis using nd Inr cp
        by (simp add: Pair step_def step_two_phase_def collect_actions_two_phase
            split: sum.splits)
    qed
  qed
qed

text \<open>
  C1. For the methods of any environment, a call of \<^verbatim>\<open>step\<close>, which asks each agent for
  its percept and calls its program in turn and only then executes the actions, does what
  the tick in two phases does: when the percepts of all agents, each one taken on the
  environment as it is before the tick, are \<open>ps\<close>, the programs are called on exactly
  these percepts and the actions are then executed in the order of \<^verbatim>\<open>agents\<close>, starting
  from the environment before the tick. The percept of the i-th agent is the percept
  method applied to the environment before the tick, whatever the agents before it do in
  this tick.
\<close>

theorem step_percepts_before_actions:
  "step m s = step_two_phase m s
   \<and> (\<not> is_done (fst s) \<and> percepts_of m (fst s) (agents (fst s)) = Inr ps \<longrightarrow>
        length ps = length (agents (fst s))
        \<and> (\<forall>i < length (agents (fst s)). percept m (fst s) (agents (fst s) ! i) = Inr (ps ! i))
        \<and> step m s =
            (case execute_actions m (fst s)
                    (zip (agents (fst s)) (fst (call_programs (snd s) (zip (agents (fst s)) ps)))) of
               Inl err \<Rightarrow> Inl err
             | Inr e' \<Rightarrow>
                 Inr (exogenous_change m e',
                      snd (call_programs (snd s) (zip (agents (fst s)) ps)))))"
proof (intro conjI impI)
  show "step m s = step_two_phase m s" by (rule step_is_two_phase)
  assume h: "\<not> is_done (fst s) \<and> percepts_of m (fst s) (agents (fst s)) = Inr ps"
  then have nd: "\<not> is_done (fst s)" and ps: "percepts_of m (fst s) (agents (fst s)) = Inr ps"
    by simp_all
  from percepts_of_nth[OF ps] show "length ps = length (agents (fst s))" by simp
  from percepts_of_nth[OF ps]
  show "\<forall>i < length (agents (fst s)). percept m (fst s) (agents (fst s) ! i) = Inr (ps ! i)"
    by simp
  show "step m s =
            (case execute_actions m (fst s)
                    (zip (agents (fst s)) (fst (call_programs (snd s) (zip (agents (fst s)) ps)))) of
               Inl err \<Rightarrow> Inl err
             | Inr e' \<Rightarrow>
                 Inr (exogenous_change m e',
                      snd (call_programs (snd s) (zip (agents (fst s)) ps))))"
    using nd ps
    by (simp add: step_is_two_phase step_two_phase_def split_beta)
qed

text \<open>
  C1, witness: two reflex agents stand at A in the two-location world, both locations
  dirty. Both perceive A as dirty, and both suck: the first, whose action is executed
  first, scores 10 and cleans A; the second sucks all the same, scores nothing and stays
  at A, where a percept taken after the first agent's action would have made it move Right.
\<close>

theorem step_percepts_before_actions_witness:
  "\<not> is_done two_reflex_agents
   \<and> percepts_of trivial_methods two_reflex_agents (agents two_reflex_agents)
       = Inr [(loc_A, ''Dirty''), (loc_A, ''Dirty'')]
   \<and> map_sum id (\<lambda>s'. (performance (heap (fst s') 0), performance (heap (fst s') 1),
                          location (heap (fst s') 1), status (fst s') loc_A))
        (step trivial_methods (two_reflex_agents, reflex_programs))
       = Inr (Some 10, Some 0, Some loc_A, Some ''Clean'')"
proof -
  have nd: "\<not> is_done two_reflex_agents"
    by (simp add: is_done_def is_alive_def two_reflex_agents_def new_agent_def new_object_def)
  have ps: "percepts_of trivial_methods two_reflex_agents (agents two_reflex_agents)
       = Inr [(loc_A, ''Dirty''), (loc_A, ''Dirty'')]"
    by (simp add: two_reflex_agents_def trivial_methods_def trivial_percept_def loc_A_def)
  note t = step_percepts_before_actions[of trivial_methods "(two_reflex_agents, reflex_programs)"
      "[(loc_A, ''Dirty''), (loc_A, ''Dirty'')]"]
  have h: "\<not> is_done (fst (two_reflex_agents, reflex_programs))
      \<and> percepts_of trivial_methods (fst (two_reflex_agents, reflex_programs))
            (agents (fst (two_reflex_agents, reflex_programs)))
          = Inr [(loc_A, ''Dirty''), (loc_A, ''Dirty'')]"
    using nd ps by simp
  note t3 = t[THEN conjunct2, THEN mp, OF h, THEN conjunct2, THEN conjunct2,
      unfolded fst_conv snd_conv]
  have st: "map_sum id (\<lambda>s'. (performance (heap (fst s') 0), performance (heap (fst s') 1),
                          location (heap (fst s') 1), status (fst s') loc_A))
        (step trivial_methods (two_reflex_agents, reflex_programs))
       = Inr (Some 10, Some 0, Some loc_A, Some ''Clean'')"
    unfolding t3
    by (simp add: two_reflex_agents_def reflex_programs_def new_agent_def new_object_def
        trivial_methods_def trivial_defs)
  from nd ps st show ?thesis by (intro conjI)
qed

subsection \<open>The evaluation harness\<close>
























end
